theory Spec2Isabelle
  imports Complex_Main
begin

section \<open>Data model\<close>

text \<open>
  The tables of the library database, one record per Sequelize model, the field names of
  the models prefixed by the table (record fields share one name space).

  Instants are JavaScript time values: milliseconds since the epoch, as \<open>Date.getTime()\<close>
  gives them. A DATEONLY column holds a calendar day, here its number of days since the
  epoch; \<open>new Date(row.due_date)\<close> parses the day as midnight UTC, and an instant
  written to such a column, or compared with it in a query, counts as its day.

  Money columns are DECIMAL(10, 2): an amount is kept as its number of hundredths, so the
  default rate 5.00 is 500 and the product of a day count and a rate is exact.
\<close>

datatype loan_status = issued | returned | overdue | lost

datatype fine_status = pending | paid | waived

record Student =
  st_id :: nat
  st_is_active :: bool
  st_max_books_allowed :: int

record Book =
  b_id :: nat
  b_is_active :: bool
  b_total_copies :: int
  b_available_copies :: int

record IssuedBook =
  ib_id :: nat
  ib_student_id :: nat
  ib_book_id :: nat
  ib_librarian_id :: nat
  ib_issue_date :: int
  ib_due_date :: int
  ib_return_date :: "int option"
  ib_fine_amount :: int
  ib_status :: loan_status
  ib_notes :: "string option"

record Fine =
  f_id :: nat
  f_issued_book_id :: nat
  f_student_id :: nat
  f_amount :: int
  f_days_overdue :: int
  f_fine_rate_per_day :: int
  f_status :: fine_status
  f_paid_date :: "int option"
  f_notes :: "string option"
  f_created_at :: int

record FineConfig =
  fc_id :: nat
  fc_fine_rate_per_day :: int
  fc_grace_period_days :: int
  fc_max_fine_amount :: "int option"
  fc_is_active :: bool
  fc_created_at :: int

record db =
  students :: "Student list"
  books :: "Book list"
  issued_books :: "IssuedBook list"
  fines :: "Fine list"
  fine_configs :: "FineConfig list"

text \<open>The object \<open>calculateFine\<close> returns, which \<open>Fine.create\<close> and \<open>update\<close> take.\<close>

record fine_data =
  fd_issued_book_id :: nat
  fd_student_id :: nat
  fd_amount :: int
  fd_days_overdue :: int
  fd_fine_rate_per_day :: int

datatype action = created | updated

record report =
  r_issued_book_id :: nat
  r_action :: action
  r_fine :: Fine

text \<open>
  The errors of the operations: the messages of the routes and of \<open>FineService\<close>, under the
  names of the specification's taxonomy. \<open>StoreError\<close> is a rejected store call.
\<close>

datatype error =
    NotFound
  | Unavailable
  | DuplicateLoan
  | LimitExceeded
  | AlreadyReturned
  | AlreadyPaid
  | CannotWaivePaid
  | StoreError

section \<open>Dates\<close>

definition day_ms :: int where
  "day_ms = 1000 * 3600 * 24"

definition Date_of :: "int \<Rightarrow> int" where
  \<comment> \<open>\<open>new Date(dateonly).getTime()\<close>\<close>
  "Date_of d = d * day_ms"

definition dateonly :: "int \<Rightarrow> int" where
  \<comment> \<open>an instant written to a DATEONLY column or bound: its calendar day (UTC)\<close>
  "dateonly t = t div day_ms"

definition ceil_days :: "int \<Rightarrow> int" where
  \<comment> \<open>\<open>Math.ceil(timeDiff / (1000 * 3600 * 24))\<close>\<close>
  "ceil_days timeDiff = - ((- timeDiff) div day_ms)"

section \<open>Store queries\<close>

definition IssuedBook_findByPk :: "nat \<Rightarrow> db \<Rightarrow> IssuedBook option" where
  "IssuedBook_findByPk k s = find (\<lambda>r. ib_id r = k) (issued_books s)"

definition Fine_findByPk :: "nat \<Rightarrow> db \<Rightarrow> Fine option" where
  "Fine_findByPk k s = find (\<lambda>r. f_id r = k) (fines s)"

fun newest :: "FineConfig \<Rightarrow> FineConfig list \<Rightarrow> FineConfig" where
  "newest best [] = best"
| "newest best (c # cs) =
     newest (if fc_created_at best < fc_created_at c then c else best) cs"

definition FineConfig_findOne :: "db \<Rightarrow> FineConfig option" where
  \<comment> \<open>\<open>findOne({ where: { is_active: true }, order: [['created_at', 'DESC']] })\<close>\<close>
  "FineConfig_findOne s =
     (case filter fc_is_active (fine_configs s) of
        [] \<Rightarrow> None
      | c # cs \<Rightarrow> Some (newest c cs))"

section \<open>FineService.calculateFine\<close>

text \<open>
  \<open>today\<close> is the clock, read by \<open>new Date()\<close>. The MySQL driver returns a DECIMAL column
  as a string, so a \<open>max_fine_amount\<close> that is not null is truthy whatever its value.
\<close>

definition calculateFine :: "int \<Rightarrow> nat \<Rightarrow> db \<Rightarrow> fine_data option" where
  "calculateFine today issuedBookId s =
     (case IssuedBook_findByPk issuedBookId s of
        None \<Rightarrow> None
      | Some issuedBook \<Rightarrow>
          if ib_status issuedBook = returned then None
          else
            let dueDate = Date_of (ib_due_date issuedBook) in
            if today \<le> dueDate then None
            else
              let fineConfig = FineConfig_findOne s;
                  fineRate = (case fineConfig of
                                Some c \<Rightarrow> fc_fine_rate_per_day c | None \<Rightarrow> 500);
                  gracePeriod = (case fineConfig of
                                   Some c \<Rightarrow> fc_grace_period_days c | None \<Rightarrow> 0);
                  timeDiff = today - dueDate;
                  daysOverdue = max 0 (ceil_days timeDiff - gracePeriod)
              in
              if daysOverdue = 0 then None
              else
                let fineAmount = daysOverdue * fineRate;
                    fineAmount' =
                      (case fineConfig of
                         None \<Rightarrow> fineAmount
                       | Some c \<Rightarrow>
                           (case fc_max_fine_amount c of
                              None \<Rightarrow> fineAmount
                            | Some m \<Rightarrow> if fineAmount > m then m else fineAmount))
                in Some \<lparr> fd_issued_book_id = issuedBookId,
                          fd_student_id = ib_student_id issuedBook,
                          fd_amount = fineAmount',
                          fd_days_overdue = daysOverdue,
                          fd_fine_rate_per_day = fineRate \<rparr>)"

section \<open>Store writes\<close>

text \<open>
  \<open>instance.update(values)\<close> writes the given columns of the row with the instance's
  primary key; \<open>Model.create\<close> appends a row under the next auto-increment key.
\<close>

definition Fine_save :: "Fine \<Rightarrow> db \<Rightarrow> db" where
  "Fine_save fine s =
     s\<lparr>fines := map (\<lambda>r. if f_id r = f_id fine then fine else r) (fines s)\<rparr>"

definition Fine_update_data :: "Fine \<Rightarrow> fine_data \<Rightarrow> Fine" where
  \<comment> \<open>the instance after \<open>existingFine.update(fineData)\<close>\<close>
  "Fine_update_data fine d =
     fine\<lparr>f_issued_book_id := fd_issued_book_id d,
          f_student_id := fd_student_id d,
          f_amount := fd_amount d,
          f_days_overdue := fd_days_overdue d,
          f_fine_rate_per_day := fd_fine_rate_per_day d\<rparr>"

definition next_Fine_id :: "db \<Rightarrow> nat" where
  "next_Fine_id s = Suc (fold max (map f_id (fines s)) 0)"

definition Fine_new :: "int \<Rightarrow> fine_data \<Rightarrow> db \<Rightarrow> Fine" where
  \<comment> \<open>the row \<open>Fine.create(fineData)\<close> builds: the model's defaults for the other columns\<close>
  "Fine_new now d s =
     \<lparr> f_id = next_Fine_id s,
       f_issued_book_id = fd_issued_book_id d,
       f_student_id = fd_student_id d,
       f_amount = fd_amount d,
       f_days_overdue = fd_days_overdue d,
       f_fine_rate_per_day = fd_fine_rate_per_day d,
       f_status = pending,
       f_paid_date = None,
       f_notes = None,
       f_created_at = now \<rparr>"

definition Fine_insert :: "Fine \<Rightarrow> db \<Rightarrow> db" where
  "Fine_insert fine s = s\<lparr>fines := fines s @ [fine]\<rparr>"

definition IssuedBook_set_status :: "nat \<Rightarrow> loan_status \<Rightarrow> db \<Rightarrow> db" where
  \<comment> \<open>\<open>book.update({ status: ... })\<close>\<close>
  "IssuedBook_set_status k st s =
     s\<lparr>issued_books :=
         map (\<lambda>r. if ib_id r = k then r\<lparr>ib_status := st\<rparr> else r) (issued_books s)\<rparr>"

section \<open>FineService.generateFinesForOverdueBooks\<close>

text \<open>
  The bound \<open>new Date()\<close> of the query is compared with the DATEONLY column
  \<open>due_date\<close>, so it is written as a day: the query selects the loans due strictly
  before today.
\<close>

definition overdueBooks :: "int \<Rightarrow> db \<Rightarrow> IssuedBook list" where
  \<comment> \<open>\<open>findAll({ where: { status: 'issued', due_date: { [Op.lt]: new Date() } } })\<close>\<close>
  "overdueBooks now s =
     filter (\<lambda>r. ib_status r = issued \<and> ib_due_date r < dateonly now) (issued_books s)"

definition Fine_findOne_pending :: "nat \<Rightarrow> db \<Rightarrow> Fine option" where
  \<comment> \<open>\<open>Fine.findOne({ where: { issued_book_id: book.id, status: 'pending' } })\<close>\<close>
  "Fine_findOne_pending k s =
     find (\<lambda>f. f_issued_book_id f = k \<and> f_status f = pending) (fines s)"

text \<open>
  The \<open>for\<close> loop over the selected loans. One instant \<open>now\<close> stands for the clock during
  the whole sweep. Each \<open>await\<close> on the store may reject, and the loop has no handler:
  \<open>rejects k\<close> says that the store rejects the write of the fine of loan \<open>k\<close>, and the
  rejection leaves the loop with what was written before.
\<close>

fun sweep_loop ::
  "(nat \<Rightarrow> bool) \<Rightarrow> int \<Rightarrow> IssuedBook list \<Rightarrow> report list \<Rightarrow> db
     \<Rightarrow> (error + report list) \<times> db" where
  "sweep_loop rejects now [] results s = (Inr results, s)"
| "sweep_loop rejects now (book # rest) results s =
     (case calculateFine now (ib_id book) s of
        None \<Rightarrow> sweep_loop rejects now rest results s
      | Some fineData \<Rightarrow>
          if rejects (ib_id book) then (Inl StoreError, s)
          else
            (case Fine_findOne_pending (ib_id book) s of
               Some existingFine \<Rightarrow>
                 let fine = Fine_update_data existingFine fineData;
                     s1 = Fine_save fine s;
                     s2 = IssuedBook_set_status (ib_id book) overdue s1
                 in sweep_loop rejects now rest
                      (results @ [\<lparr> r_issued_book_id = ib_id book,
                                     r_action = updated, r_fine = fine \<rparr>]) s2
             | None \<Rightarrow>
                 let fine = Fine_new now fineData s;
                     s1 = Fine_insert fine s;
                     s2 = IssuedBook_set_status (ib_id book) overdue s1
                 in sweep_loop rejects now rest
                      (results @ [\<lparr> r_issued_book_id = ib_id book,
                                     r_action = created, r_fine = fine \<rparr>]) s2))"

definition generateFinesForOverdueBooks ::
  "(nat \<Rightarrow> bool) \<Rightarrow> int \<Rightarrow> db \<Rightarrow> (error + report list) \<times> db" where
  "generateFinesForOverdueBooks rejects now s =
     sweep_loop rejects now (overdueBooks now s) [] s"

definition no_fault :: "nat \<Rightarrow> bool" where
  \<comment> \<open>a store that rejects nothing\<close>
  "no_fault k = False"

section \<open>FineService.getStudentFines, payFine, waiveFine\<close>

definition getStudentFines :: "nat \<Rightarrow> fine_status option \<Rightarrow> db \<Rightarrow> Fine list" where
  \<comment> \<open>\<open>status = 'pending'\<close> is the default of the parameter\<close>
  "getStudentFines studentId status s =
     (let status' = (case status of None \<Rightarrow> pending | Some st \<Rightarrow> st) in
      sort_key (\<lambda>f. - f_created_at f)
        (filter (\<lambda>f. f_student_id f = studentId \<and> f_status f = status') (fines s)))"

definition route_student_fines :: "nat \<Rightarrow> fine_status option \<Rightarrow> db \<Rightarrow> Fine list" where
  \<comment> \<open>GET /api/fines/student/:studentId, \<open>status\<close> the query parameter, if any\<close>
  "route_student_fines studentId status s = getStudentFines studentId status s"

definition payFine :: "int \<Rightarrow> nat \<Rightarrow> int option \<Rightarrow> db \<Rightarrow> error + (Fine \<times> db)" where
  "payFine now fineId paidDate s =
     (case Fine_findByPk fineId s of
        None \<Rightarrow> Inl NotFound
      | Some fine \<Rightarrow>
          if f_status fine = paid then Inl AlreadyPaid
          else
            let fine' = fine\<lparr>f_status := paid,
                             f_paid_date :=
                               Some (dateonly (case paidDate of
                                                 None \<Rightarrow> now | Some d \<Rightarrow> d))\<rparr>
            in Inr (fine', Fine_save fine' s))"

definition waiveFine :: "nat \<Rightarrow> string option \<Rightarrow> db \<Rightarrow> error + (Fine \<times> db)" where
  "waiveFine fineId notes s =
     (case Fine_findByPk fineId s of
        None \<Rightarrow> Inl NotFound
      | Some fine \<Rightarrow>
          if f_status fine = paid then Inl CannotWaivePaid
          else
            let fine' = fine\<lparr>f_status := waived,
                             f_notes :=
                               Some (case notes of None \<Rightarrow> [] | Some n \<Rightarrow> n)\<rparr>
            in Inr (fine', Fine_save fine' s))"

section \<open>POST /api/issued-books/issue\<close>

definition next_IssuedBook_id :: "db \<Rightarrow> nat" where
  "next_IssuedBook_id s = Suc (fold max (map ib_id (issued_books s)) 0)"

definition IssuedBook_findOne_issued :: "nat \<Rightarrow> nat \<Rightarrow> db \<Rightarrow> IssuedBook option" where
  \<comment> \<open>\<open>IssuedBook.findOne({ where: { student_id, book_id, status: 'issued' } })\<close>\<close>
  "IssuedBook_findOne_issued student_id book_id s =
     find (\<lambda>r. ib_student_id r = student_id \<and> ib_book_id r = book_id
                \<and> ib_status r = issued) (issued_books s)"

definition issueBook ::
  "int \<Rightarrow> nat \<Rightarrow> nat \<Rightarrow> nat \<Rightarrow> int \<Rightarrow> string option \<Rightarrow> db
     \<Rightarrow> error + (IssuedBook \<times> db)" where
  "issueBook now librarian student_id book_id due_date notes s =
     (case find (\<lambda>r. st_id r = student_id \<and> st_is_active r) (students s) of
        None \<Rightarrow> Inl NotFound
      | Some student \<Rightarrow>
          (case find (\<lambda>r. b_id r = book_id \<and> b_is_active r) (books s) of
             None \<Rightarrow> Inl NotFound
           | Some book \<Rightarrow>
               if b_available_copies book \<le> 0 then Inl Unavailable
               else if IssuedBook_findOne_issued student_id book_id s \<noteq> None
               then Inl DuplicateLoan
               else if int (length (filter (\<lambda>r. ib_student_id r = student_id
                                              \<and> ib_status r = issued) (issued_books s)))
                         \<ge> st_max_books_allowed student
               then Inl LimitExceeded
               else
                 let issuedBook =
                       \<lparr> ib_id = next_IssuedBook_id s,
                         ib_student_id = student_id,
                         ib_book_id = book_id,
                         ib_librarian_id = librarian,
                         ib_issue_date = dateonly now,
                         ib_due_date = due_date,
                         ib_return_date = None,
                         ib_fine_amount = 0,
                         ib_status = issued,
                         ib_notes = notes \<rparr>;
                     s1 = s\<lparr>issued_books := issued_books s @ [issuedBook]\<rparr>;
                     s2 = s1\<lparr>books :=
                              map (\<lambda>r. if b_id r = b_id book
                                        then r\<lparr>b_available_copies :=
                                                 b_available_copies book - 1\<rparr>
                                        else r) (books s1)\<rparr>
                 in Inr (issuedBook, s2)))"

section \<open>PUT /api/issued-books/:id/return\<close>

definition Fine_findOne_of_loan :: "nat \<Rightarrow> db \<Rightarrow> Fine option" where
  \<comment> \<open>\<open>Fine.findOne({ where: { issued_book_id: issuedBook.id } })\<close>\<close>
  "Fine_findOne_of_loan k s = find (\<lambda>f. f_issued_book_id f = k) (fines s)"

text \<open>
  \<open>now\<close> is the clock of the request, read by \<open>new Date()\<close> in the route when the body
  has no return date and in \<open>calculateFine\<close>; \<open>return_date\<close> is the instant parsed from
  the body, if it has one.
\<close>

definition return_fine :: "int \<Rightarrow> int \<Rightarrow> IssuedBook \<Rightarrow> db \<Rightarrow> int \<times> db" where
  \<comment> \<open>the block that sets \<open>fineAmount\<close>: the fine as \<open>calculateFine\<close> gives it today\<close>
  "return_fine now returnDate issuedBook s =
     (if returnDate > Date_of (ib_due_date issuedBook) then
        (case calculateFine now (ib_id issuedBook) s of
           None \<Rightarrow> (0, s)
         | Some fineData \<Rightarrow>
             (case Fine_findOne_of_loan (ib_id issuedBook) s of
                Some existingFine \<Rightarrow>
                  (fd_amount fineData,
                   Fine_save (existingFine\<lparr>f_amount := fd_amount fineData,
                                          f_days_overdue := fd_days_overdue fineData,
                                          f_status := pending\<rparr>) s)
              | None \<Rightarrow>
                  (fd_amount fineData, Fine_insert (Fine_new now fineData s) s)))
      else (0, s))"

definition returnBook ::
  "int \<Rightarrow> nat \<Rightarrow> int option \<Rightarrow> string option \<Rightarrow> db \<Rightarrow> error + (int \<times> db)" where
  "returnBook now k return_date notes s =
     (case IssuedBook_findByPk k s of
        None \<Rightarrow> Inl NotFound
      | Some issuedBook \<Rightarrow>
          if ib_status issuedBook = returned then Inl AlreadyReturned
          else
            let returnDate = (case return_date of Some d \<Rightarrow> d | None \<Rightarrow> now);
                (fineAmount, s1) = return_fine now returnDate issuedBook s;
                s2 = s1\<lparr>issued_books :=
                         map (\<lambda>r. if ib_id r = ib_id issuedBook
                                   then r\<lparr>ib_return_date := Some (dateonly returnDate),
                                          ib_status := returned,
                                          ib_fine_amount := fineAmount,
                                          ib_notes :=
                                            (case notes of
                                               None \<Rightarrow> ib_notes issuedBook
                                             | Some n \<Rightarrow>
                                                 if n = [] then ib_notes issuedBook
                                                 else Some n)\<rparr>
                                   else r) (issued_books s1)\<rparr>;
                s3 = s2\<lparr>books :=
                         map (\<lambda>r. if b_id r = ib_book_id issuedBook
                                   then r\<lparr>b_available_copies := b_available_copies r + 1\<rparr>
                                   else r) (books s2)\<rparr>
            in Inr (fineAmount, s3))"

section \<open>The specification's reading of the fine computation\<close>

text \<open>
  The current policy in the specification's words: the most recently created active
  record, and no record (the default rate 5.00, no grace, no cap) when none is active.
\<close>

definition is_current_policy :: "db \<Rightarrow> FineConfig option \<Rightarrow> bool" where
  "is_current_policy s policy =
     (case policy of
        None \<Rightarrow> list_all (\<lambda>c. \<not> fc_is_active c) (fine_configs s)
      | Some c \<Rightarrow>
          c \<in> set (fine_configs s) \<and> fc_is_active c \<and>
          list_all (\<lambda>c'. fc_is_active c' \<longrightarrow> fc_created_at c' \<le> fc_created_at c)
            (fine_configs s))"

text \<open>
  Steps 3 to 8 of the specification's \<open>calculateFine\<close>, the day count as the ceiling of a
  real quotient.
\<close>

definition spec_calculateFine ::
  "FineConfig option \<Rightarrow> int \<Rightarrow> IssuedBook \<Rightarrow> fine_data option" where
  "spec_calculateFine policy evaluationDate loan =
     (let rate = (case policy of None \<Rightarrow> 500 | Some c \<Rightarrow> fc_fine_rate_per_day c);
          grace = (case policy of None \<Rightarrow> 0 | Some c \<Rightarrow> fc_grace_period_days c);
          cap = (case policy of None \<Rightarrow> None | Some c \<Rightarrow> fc_max_fine_amount c);
          rawDays =
            \<lceil>real_of_int (evaluationDate - Date_of (ib_due_date loan)) / 86400000\<rceil>;
          daysOverdue = max 0 (rawDays - grace)
      in if daysOverdue = 0 then None
         else Some \<lparr> fd_issued_book_id = ib_id loan,
                     fd_student_id = ib_student_id loan,
                     fd_amount = (case cap of
                                    None \<Rightarrow> daysOverdue * rate
                                  | Some m \<Rightarrow> min (daysOverdue * rate) m),
                     fd_days_overdue = daysOverdue,
                     fd_fine_rate_per_day = rate \<rparr>)"

section \<open>Example data\<close>

text \<open>
  Loan 1 of student 42 for book 7, due on 2024-01-10 (day 19732; midnight UTC of that day
  is the instant 1704844800000). \<open>ex_db\<close> has no policy row; \<open>ex_db_policy\<close> has three:
  an older active one, the current one (5.00 a day, three days of grace, capped at 20.00)
  and a newer inactive one.
\<close>

definition ex_loan :: IssuedBook where
  "ex_loan = \<lparr> ib_id = 1, ib_student_id = 42, ib_book_id = 7, ib_librarian_id = 1,
               ib_issue_date = 19723, ib_due_date = 19732, ib_return_date = None,
               ib_fine_amount = 0, ib_status = issued, ib_notes = None \<rparr>"

definition ex_student :: Student where
  "ex_student = \<lparr> st_id = 42, st_is_active = True, st_max_books_allowed = 3 \<rparr>"

definition ex_book :: Book where
  "ex_book = \<lparr> b_id = 7, b_is_active = True, b_total_copies = 2, b_available_copies = 1 \<rparr>"

definition ex_db :: db where
  "ex_db = \<lparr> students = [ex_student], books = [ex_book], issued_books = [ex_loan],
             fines = [], fine_configs = [] \<rparr>"

definition ex_old_policy :: FineConfig where
  "ex_old_policy = \<lparr> fc_id = 1, fc_fine_rate_per_day = 300, fc_grace_period_days = 0,
                     fc_max_fine_amount = None, fc_is_active = True,
                     fc_created_at = 1672531200000 \<rparr>"

definition ex_policy :: FineConfig where
  "ex_policy = \<lparr> fc_id = 2, fc_fine_rate_per_day = 500, fc_grace_period_days = 3,
                 fc_max_fine_amount = Some 2000, fc_is_active = True,
                 fc_created_at = 1704067200000 \<rparr>"

definition ex_draft_policy :: FineConfig where
  "ex_draft_policy = \<lparr> fc_id = 3, fc_fine_rate_per_day = 900, fc_grace_period_days = 1,
                       fc_max_fine_amount = None, fc_is_active = False,
                       fc_created_at = 1704153600000 \<rparr>"

definition ex_db_policy :: db where
  "ex_db_policy = ex_db\<lparr>fine_configs := [ex_old_policy, ex_policy, ex_draft_policy]\<rparr>"

section \<open>Auxiliary notions for the sweep\<close>

text \<open>
  The body of \<open>calculateFine\<close> once the loan has been read: what the function returns
  for the row \<open>issuedBook\<close> under the policy \<open>fineConfig\<close>.
\<close>

definition calculateFine_on ::
  "int \<Rightarrow> FineConfig option \<Rightarrow> nat \<Rightarrow> IssuedBook \<Rightarrow> fine_data option" where
  "calculateFine_on today fineConfig issuedBookId issuedBook =
     (if ib_status issuedBook = returned then None
      else
        let dueDate = Date_of (ib_due_date issuedBook) in
        if today \<le> dueDate then None
        else
          let fineRate = (case fineConfig of
                            Some c \<Rightarrow> fc_fine_rate_per_day c | None \<Rightarrow> 500);
              gracePeriod = (case fineConfig of
                               Some c \<Rightarrow> fc_grace_period_days c | None \<Rightarrow> 0);
              timeDiff = today - dueDate;
              daysOverdue = max 0 (ceil_days timeDiff - gracePeriod)
          in
          if daysOverdue = 0 then None
          else
            let fineAmount = daysOverdue * fineRate;
                fineAmount' =
                  (case fineConfig of
                     None \<Rightarrow> fineAmount
                   | Some c \<Rightarrow>
                       (case fc_max_fine_amount c of
                          None \<Rightarrow> fineAmount
                        | Some m \<Rightarrow> if fineAmount > m then m else fineAmount))
            in Some \<lparr> fd_issued_book_id = issuedBookId,
                      fd_student_id = ib_student_id issuedBook,
                      fd_amount = fineAmount',
                      fd_days_overdue = daysOverdue,
                      fd_fine_rate_per_day = fineRate \<rparr>)"

text \<open>
  The loans table during a sweep started in \<open>s\<close>: the rows of \<open>s\<close>, those with a key in
  \<open>M\<close> (the loans fined so far) set to overdue; the other tables the loop reads are as
  in \<open>s\<close>.
\<close>

definition mark_overdue :: "nat set \<Rightarrow> IssuedBook \<Rightarrow> IssuedBook" where
  "mark_overdue M r = (if ib_id r \<in> M then r\<lparr>ib_status := overdue\<rparr> else r)"

definition fined_ids :: "int \<Rightarrow> db \<Rightarrow> IssuedBook list \<Rightarrow> nat set" where
  "fined_ids now s bs =
     ib_id ` set (filter (\<lambda>b. calculateFine now (ib_id b) s \<noteq> None) bs)"

definition marked :: "int \<Rightarrow> db \<Rightarrow> nat set \<Rightarrow> db \<Rightarrow> bool" where
  "marked now s M s' \<longleftrightarrow>
     issued_books s' = map (mark_overdue M) (issued_books s) \<and>
     fine_configs s' = fine_configs s \<and> students s' = students s \<and> books s' = books s \<and>
     (\<forall>k \<in> M. calculateFine now k s \<noteq> None)"

text \<open>
  The overdue set of a sweep at the instant \<open>now\<close>: the loans it selects and has a fine
  for.
\<close>

definition overdue_set :: "int \<Rightarrow> db \<Rightarrow> IssuedBook list" where
  "overdue_set now s =
     filter (\<lambda>b. calculateFine now (ib_id b) s \<noteq> None) (overdueBooks now s)"

definition total_fine_amount :: "db \<Rightarrow> int" where
  "total_fine_amount s = sum_list (map f_amount (fines s))"

text \<open>
  What the upsert of a sweep leaves for a fined loan: a pending fine with the values
  \<open>calculateFine\<close> returned. \<open>upserted now s P s'\<close> says so for the loans of \<open>P\<close>, and
  that the fines of \<open>s'\<close> have distinct keys.
\<close>

definition fine_matches :: "Fine \<Rightarrow> fine_data \<Rightarrow> bool" where
  "fine_matches f d \<longleftrightarrow>
     f_issued_book_id f = fd_issued_book_id d \<and> f_student_id f = fd_student_id d \<and>
     f_amount f = fd_amount d \<and> f_days_overdue f = fd_days_overdue d \<and>
     f_fine_rate_per_day f = fd_fine_rate_per_day d \<and> f_status f = pending"

definition upserted :: "int \<Rightarrow> db \<Rightarrow> nat set \<Rightarrow> db \<Rightarrow> bool" where
  "upserted now s P s' \<longleftrightarrow>
     distinct (map f_id (fines s')) \<and>
     (\<forall>k \<in> P. \<exists>d f. calculateFine now k s = Some d \<and>
                       Fine_findOne_pending k s' = Some f \<and> fine_matches f d)"

text \<open>
  A second student, book and loan: loan 2 of student 43 for book 8, due on 2024-01-08.
\<close>

definition ex_student2 :: Student where
  "ex_student2 = \<lparr> st_id = 43, st_is_active = True, st_max_books_allowed = 3 \<rparr>"

definition ex_book2 :: Book where
  "ex_book2 = \<lparr> b_id = 8, b_is_active = True, b_total_copies = 2, b_available_copies = 1 \<rparr>"

definition ex_loan2 :: IssuedBook where
  "ex_loan2 = \<lparr> ib_id = 2, ib_student_id = 43, ib_book_id = 8, ib_librarian_id = 1,
                ib_issue_date = 19720, ib_due_date = 19730, ib_return_date = None,
                ib_fine_amount = 0, ib_status = issued, ib_notes = None \<rparr>"

definition ex_db_two :: db where
  "ex_db_two = \<lparr> students = [ex_student, ex_student2], books = [ex_book, ex_book2],
                 issued_books = [ex_loan, ex_loan2], fines = [], fine_configs = [] \<rparr>"

text \<open>
  Fines for the examples: the pending fine of loan 1 (one day, 5.00) and a waived fine of
  loan 2. In \<open>ex_db_ledger\<close> loan 1 is overdue with its fine paid and loan 2 has the
  waived fine; in \<open>ex_db_overdue\<close> loan 1 is overdue with its fine pending; in
  \<open>ex_db_no_copies\<close> no copy of book 7 is left.
\<close>

definition ex_fine :: Fine where
  "ex_fine = \<lparr> f_id = 1, f_issued_book_id = 1, f_student_id = 42, f_amount = 500,
               f_days_overdue = 1, f_fine_rate_per_day = 500, f_status = pending,
               f_paid_date = None, f_notes = None, f_created_at = 1704931200000 \<rparr>"

definition ex_fine2 :: Fine where
  "ex_fine2 = \<lparr> f_id = 2, f_issued_book_id = 2, f_student_id = 43, f_amount = 1000,
                f_days_overdue = 2, f_fine_rate_per_day = 500, f_status = waived,
                f_paid_date = None, f_notes = Some ''lenient'',
                f_created_at = 1704844800000 \<rparr>"

definition ex_db_ledger :: db where
  "ex_db_ledger =
     ex_db_two\<lparr>issued_books := [ex_loan\<lparr>ib_status := overdue\<rparr>, ex_loan2],
               fines := [ex_fine\<lparr>f_status := paid, f_paid_date := Some 19733\<rparr>,
                         ex_fine2]\<rparr>"

definition ex_db_overdue :: db where
  "ex_db_overdue = ex_db\<lparr>issued_books := [ex_loan\<lparr>ib_status := overdue\<rparr>],
                          fines := [ex_fine]\<rparr>"

definition ex_db_no_copies :: db where
  "ex_db_no_copies = ex_db\<lparr>books := [ex_book\<lparr>b_available_copies := 0\<rparr>]\<rparr>"

text \<open>
  At most one loan in status issued for each pair of a student and a book.
\<close>

definition one_issued_per_pair :: "db \<Rightarrow> bool" where
  "one_issued_per_pair s \<longleftrightarrow>
     distinct (map (\<lambda>r. (ib_student_id r, ib_book_id r))
                 (filter (\<lambda>r. ib_status r = issued) (issued_books s)))"

section \<open>Properties of the fine computation\<close>

lemma ceil_days_real: "ceil_days t = \<lceil>real_of_int t / real_of_int day_ms\<rceil>"
  unfolding ceil_days_def by (simp add: ceiling_divide_eq_div)

lemma ceil_days_iff: "ceil_days t = n \<longleftrightarrow> (n - 1) * day_ms < t \<and> t \<le> n * day_ms"
proof -
  have pos: "0 < real_of_int day_ms" by (simp add: day_ms_def)
  have "ceil_days t = n \<longleftrightarrow> real_of_int n - 1 < real_of_int t / real_of_int day_ms
            \<and> real_of_int t / real_of_int day_ms \<le> real_of_int n"
    unfolding ceil_days_real by (rule ceiling_eq_iff)
  also have "\<dots> \<longleftrightarrow> (real_of_int n - 1) * real_of_int day_ms < real_of_int t
            \<and> real_of_int t \<le> real_of_int n * real_of_int day_ms"
    using pos by (simp add: pos_less_divide_eq pos_divide_le_eq)
  also have "\<dots> \<longleftrightarrow> real_of_int ((n - 1) * day_ms) < real_of_int t
            \<and> real_of_int t \<le> real_of_int (n * day_ms)"
    by simp
  also have "\<dots> \<longleftrightarrow> (n - 1) * day_ms < t \<and> t \<le> n * day_ms"
    by (simp only: of_int_less_iff of_int_le_iff)
  finally show ?thesis .
qed

lemma find_ib_id: "find (\<lambda>r. ib_id r = k) xs = Some b \<Longrightarrow> ib_id b = k \<and> b \<in> set xs"
  by (induction xs) (auto split: if_splits)

lemma newest_props:
  "newest b cs \<in> set (b # cs) \<and>
   (\<forall>c \<in> set (b # cs). fc_created_at c \<le> fc_created_at (newest b cs))"
proof (induction cs arbitrary: b)
  case Nil
  show ?case by simp
next
  case (Cons c cs)
  from Cons[of "if fc_created_at b < fc_created_at c then c else b"]
  show ?case by (auto split: if_splits)
qed

lemma FineConfig_findOne_current: "is_current_policy s (FineConfig_findOne s)"
proof (cases "filter fc_is_active (fine_configs s)")
  case Nil
  then have "\<forall>c \<in> set (fine_configs s). \<not> fc_is_active c"
    by (simp add: filter_empty_conv)
  with Nil show ?thesis
    by (simp add: is_current_policy_def FineConfig_findOne_def list_all_iff)
next
  case (Cons c cs)
  have sub: "set (c # cs) = {x \<in> set (fine_configs s). fc_is_active x}"
    using Cons[symmetric] by simp
  from newest_props[of c cs] sub show ?thesis
    by (auto simp: is_current_policy_def FineConfig_findOne_def Cons list_all_iff)
qed

lemma ex_policy_current: "FineConfig_findOne ex_db_policy = Some ex_policy"
  by (simp add: FineConfig_findOne_def ex_db_policy_def ex_db_def ex_old_policy_def
      ex_policy_def ex_draft_policy_def)

lemma ex_no_policy: "FineConfig_findOne ex_db = None"
  by (simp add: FineConfig_findOne_def ex_db_def)

lemma ex_loan_found: "IssuedBook_findByPk 1 ex_db = Some ex_loan"
  by (simp add: IssuedBook_findByPk_def ex_db_def ex_loan_def)

lemma ex_loan_found_policy: "IssuedBook_findByPk 1 ex_db_policy = Some ex_loan"
  by (simp add: IssuedBook_findByPk_def ex_db_policy_def ex_db_def ex_loan_def)

text \<open>
  C1. For a loan that is not returned and an evaluation instant after its due date,
  \<open>calculateFine\<close> uses the current policy (the most recently created active record, the
  default 5.00 a day without grace or cap when no record is active) and returns what the
  specification's computation returns: no fine when the days overdue after the grace
  period are 0, otherwise the days, the amount days times rate, capped by the maximum
  when one is set, and the rate.
\<close>

theorem calculateFine_meets_spec:
  assumes "IssuedBook_findByPk k s = Some loan" and "ib_status loan \<noteq> returned"
    and "Date_of (ib_due_date loan) < evaluationDate"
  shows "is_current_policy s (FineConfig_findOne s) \<and>
         calculateFine evaluationDate k s
           = spec_calculateFine (FineConfig_findOne s) evaluationDate loan"
proof -
  have k: "ib_id loan = k"
    using find_ib_id[of k "issued_books s" loan] assms(1)
    by (simp add: IssuedBook_findByPk_def)
  have d: "real_of_int day_ms = 86400000" by (simp add: day_ms_def)
  show ?thesis
    using assms k
    by (auto simp: FineConfig_findOne_current calculateFine_def spec_calculateFine_def
        Let_def ceil_days_real d split: option.splits)
qed

text \<open>
  Ten days after the due date under the example policy: seven days after the grace
  period, 35.00 at the rate of the current policy, capped at 20.00.
\<close>

theorem calculateFine_meets_spec_witness:
  "IssuedBook_findByPk 1 ex_db_policy = Some ex_loan \<and> ib_status ex_loan \<noteq> returned
   \<and> Date_of (ib_due_date ex_loan) < 1705708800000
   \<and> is_current_policy ex_db_policy (Some ex_policy)
   \<and> calculateFine 1705708800000 1 ex_db_policy
        = Some \<lparr> fd_issued_book_id = 1, fd_student_id = 42, fd_amount = 2000,
                 fd_days_overdue = 7, fd_fine_rate_per_day = 500 \<rparr>"
proof -
  have b: "ib_status ex_loan \<noteq> returned" by (simp add: ex_loan_def)
  have c: "Date_of (ib_due_date ex_loan) < 1705708800000"
    by (simp add: ex_loan_def Date_of_def day_ms_def)
  have e: "spec_calculateFine (Some ex_policy) 1705708800000 ex_loan
        = Some \<lparr> fd_issued_book_id = 1, fd_student_id = 42, fd_amount = 2000,
                 fd_days_overdue = 7, fd_fine_rate_per_day = 500 \<rparr>"
    by (simp add: spec_calculateFine_def ex_policy_def ex_loan_def Date_of_def day_ms_def)
  show ?thesis
    using calculateFine_meets_spec[OF ex_loan_found_policy b c] ex_loan_found_policy b c e
    by (simp add: ex_policy_current)
qed

text \<open>
  The boundary of the day count, at exact instants: under a policy without grace period
  (or without any policy) a loan evaluated at the midnight that starts its due day gets
  no fine, and a loan evaluated 24 hours later gets a fine of one day overdue.
\<close>

lemma calculateFine_boundary:
  assumes "IssuedBook_findByPk k s = Some loan" and "ib_status loan \<noteq> returned"
    and "case FineConfig_findOne s of None \<Rightarrow> True | Some c \<Rightarrow> fc_grace_period_days c = 0"
  shows "calculateFine (Date_of (ib_due_date loan)) k s = None \<and>
         (\<exists>fd. calculateFine (Date_of (ib_due_date loan) + day_ms) k s = Some fd
                \<and> fd_days_overdue fd = 1)"
proof -
  have c: "ceil_days day_ms = 1" by (simp add: ceil_days_iff day_ms_def)
  have p: "0 < day_ms" by (simp add: day_ms_def)
  show ?thesis
    using assms c p
    by (auto simp: calculateFine_def Let_def split: option.splits)
qed

section \<open>Properties of the fine queries\<close>

text \<open>
  C10. Without a status argument \<open>getStudentFines\<close> asks for the pending fines: the
  route without a status query returns what \<open>getStudentFines\<close> returns for the status
  pending, the student's pending fines and no paid or waived one.
\<close>

theorem getStudentFines_default_pending:
  "route_student_fines studentId None s = getStudentFines studentId (Some pending) s \<and>
   getStudentFines studentId None s = getStudentFines studentId (Some pending) s \<and>
   set (route_student_fines studentId None s)
     = set (filter (\<lambda>f. f_student_id f = studentId \<and> f_status f = pending) (fines s))"
  by (simp add: route_student_fines_def getStudentFines_def)

section \<open>Properties of the sweep\<close>

lemma find_mark:
  "find (\<lambda>r. ib_id r = k) (map (mark_overdue M) xs)
     = map_option (mark_overdue M) (find (\<lambda>r. ib_id r = k) xs)"
  by (induction xs) (auto simp: mark_overdue_def)

lemma calculateFine_row:
  "calculateFine today k s =
     (case IssuedBook_findByPk k s of
        None \<Rightarrow> None
      | Some b \<Rightarrow> calculateFine_on today (FineConfig_findOne s) k b)"
  by (simp add: calculateFine_def calculateFine_on_def Let_def split: option.splits)

lemma calculateFine_on_overdue:
  "ib_status b \<noteq> returned \<Longrightarrow>
   calculateFine_on today cfg k (b\<lparr>ib_status := overdue\<rparr>) = calculateFine_on today cfg k b"
  by (simp add: calculateFine_on_def Let_def)

lemma calculateFine_on_returned: "calculateFine_on today cfg k b \<noteq> None \<Longrightarrow> ib_status b \<noteq> returned"
  by (auto simp: calculateFine_on_def)

lemma calculateFine_marked_at:
  assumes "marked now s M s'"
  shows "calculateFine today k s' = calculateFine today k s"
proof -
  have cfg: "FineConfig_findOne s' = FineConfig_findOne s"
    using assms by (simp add: marked_def FineConfig_findOne_def)
  have rows: "issued_books s' = map (mark_overdue M) (issued_books s)"
    using assms by (simp add: marked_def)
  have f': "IssuedBook_findByPk k s' = map_option (mark_overdue M) (IssuedBook_findByPk k s)"
    by (simp add: IssuedBook_findByPk_def rows find_mark)
  show ?thesis
  proof (cases "IssuedBook_findByPk k s")
    case None
    with f' show ?thesis by (simp add: calculateFine_row)
  next
    case (Some b)
    have kb: "ib_id b = k"
      using find_ib_id[of k "issued_books s" b] Some by (simp add: IssuedBook_findByPk_def)
    show ?thesis
    proof (cases "k \<in> M")
      case False
      with kb have "mark_overdue M b = b" by (simp add: mark_overdue_def)
      with f' Some cfg show ?thesis by (simp add: calculateFine_row)
    next
      case True
      with assms have "calculateFine now k s \<noteq> None" by (simp add: marked_def)
      with Some have "calculateFine_on now (FineConfig_findOne s) k b \<noteq> None"
        by (simp add: calculateFine_row)
      then have nr: "ib_status b \<noteq> returned" by (rule calculateFine_on_returned)
      from True kb have m: "mark_overdue M b = b\<lparr>ib_status := overdue\<rparr>"
        by (simp add: mark_overdue_def)
      show ?thesis
        using f' Some cfg calculateFine_on_overdue[OF nr] by (simp add: calculateFine_row m)
    qed
  qed
qed

lemma calculateFine_marked:
  "marked now s M s' \<Longrightarrow> calculateFine now k s' = calculateFine now k s"
  by (rule calculateFine_marked_at)

lemma marked_step:
  assumes "marked now s M s'" and "calculateFine now k s \<noteq> None"
    and "issued_books s1 = issued_books s'" "fine_configs s1 = fine_configs s'"
    and "students s1 = students s'" "books s1 = books s'"
  shows "marked now s (insert k M) (IssuedBook_set_status k overdue s1)"
proof -
  have "map (\<lambda>r. if ib_id r = k then r\<lparr>ib_status := overdue\<rparr> else r)
            (map (mark_overdue M) (issued_books s))
        = map (mark_overdue (insert k M)) (issued_books s)"
    by (auto simp: mark_overdue_def)
  with assms show ?thesis
    by (simp add: marked_def IssuedBook_set_status_def)
qed

lemma sweep_loop_marked:
  assumes "marked now s M s'"
  shows "(\<exists>rs'. fst (sweep_loop no_fault now bs rs s') = Inr rs')
     \<and> marked now s (M \<union> fined_ids now s bs) (snd (sweep_loop no_fault now bs rs s'))"
  using assms
proof (induction bs arbitrary: M s' rs)
  case Nil
  then show ?case by (simp add: fined_ids_def)
next
  case (Cons b bs)
  have calc: "calculateFine now (ib_id b) s' = calculateFine now (ib_id b) s"
    using Cons.prems by (rule calculateFine_marked)
  show ?case
  proof (cases "calculateFine now (ib_id b) s")
    case None
    then have ids: "fined_ids now s (b # bs) = fined_ids now s bs"
      by (simp add: fined_ids_def)
    from Cons.IH[OF Cons.prems, of rs] None calc ids show ?thesis by simp
  next
    case (Some fd)
    then have ids: "M \<union> fined_ids now s (b # bs) = insert (ib_id b) M \<union> fined_ids now s bs"
      by (simp add: fined_ids_def)
    have ne: "calculateFine now (ib_id b) s \<noteq> None" using Some by simp
    show ?thesis
    proof (cases "Fine_findOne_pending (ib_id b) s'")
      case None
      let ?s1 = "Fine_insert (Fine_new now fd s') s'"
      have m: "marked now s (insert (ib_id b) M) (IssuedBook_set_status (ib_id b) overdue ?s1)"
        by (rule marked_step[OF Cons.prems ne]) (simp_all add: Fine_insert_def)
      from Cons.IH[OF m] Some calc None ids show ?thesis
        by (simp add: no_fault_def Let_def)
    next
      case (Some e)
      let ?s1 = "Fine_save (Fine_update_data e fd) s'"
      have m: "marked now s (insert (ib_id b) M) (IssuedBook_set_status (ib_id b) overdue ?s1)"
        by (rule marked_step[OF Cons.prems ne]) (simp_all add: Fine_save_def)
      from Cons.IH[OF m] \<open>calculateFine now (ib_id b) s = Some fd\<close> calc Some ids show ?thesis
        by (simp add: no_fault_def Let_def)
    qed
  qed
qed

lemma marked_refl: "marked now s {} s"
  by (simp add: marked_def mark_overdue_def map_idI)

lemma sweep_marked:
  "\<exists>rs. fst (generateFinesForOverdueBooks no_fault now s) = Inr rs"
  "marked now s (fined_ids now s (overdueBooks now s))
     (snd (generateFinesForOverdueBooks no_fault now s))"
  using sweep_loop_marked[OF marked_refl, where bs = "overdueBooks now s" and rs = "[]" and now = now and s = s]
  by (simp_all add: generateFinesForOverdueBooks_def)

lemma sweep_loop_nothing:
  "\<forall>b \<in> set bs. calculateFine now (ib_id b) s = None \<Longrightarrow>
   sweep_loop rejects now bs rs s = (Inr rs, s)"
  by (induction bs) simp_all

lemma le_Date_of_iff: "t \<le> Date_of d \<longleftrightarrow> ceil_days t \<le> d"
proof -
  have pos: "0 < real_of_int day_ms" by (simp add: day_ms_def)
  have "ceil_days t \<le> d \<longleftrightarrow> real_of_int t / real_of_int day_ms \<le> real_of_int d"
    unfolding ceil_days_real by (rule ceiling_le_iff)
  also have "\<dots> \<longleftrightarrow> real_of_int t \<le> real_of_int (d * day_ms)"
    using pos by (simp add: pos_divide_le_eq)
  also have "\<dots> \<longleftrightarrow> t \<le> d * day_ms" by (simp only: of_int_le_iff)
  finally show ?thesis by (simp add: Date_of_def)
qed

lemma ceil_days_diff: "ceil_days (t - Date_of d) = ceil_days t - d"
proof -
  obtain n where n: "ceil_days t = n" by simp
  then have "(n - 1) * day_ms < t \<and> t \<le> n * day_ms" by (simp add: ceil_days_iff)
  then have "(n - d - 1) * day_ms < t - d * day_ms \<and> t - d * day_ms \<le> (n - d) * day_ms"
    by (simp add: algebra_simps)
  then have "ceil_days (t - d * day_ms) = n - d" by (simp add: ceil_days_iff)
  with n show ?thesis by (simp add: Date_of_def)
qed

lemma calculateFine_on_same_day:
  assumes "ceil_days now2 = ceil_days now1"
  shows "calculateFine_on now2 cfg k b = calculateFine_on now1 cfg k b"
  using assms by (simp add: calculateFine_on_def le_Date_of_iff ceil_days_diff)

lemma calculateFine_same_day:
  "ceil_days now2 = ceil_days now1 \<Longrightarrow> calculateFine now2 k s = calculateFine now1 k s"
  using calculateFine_on_same_day[of now2 now1 "FineConfig_findOne s" k]
  by (simp add: calculateFine_row split: option.splits)

lemma overdue_set_same_day:
  assumes "dateonly now2 = dateonly now1" and "ceil_days now2 = ceil_days now1"
  shows "overdue_set now2 s = overdue_set now1 s"
  using assms(1) by (simp add: overdue_set_def overdueBooks_def calculateFine_same_day[OF assms(2)])

lemma second_sweep_nothing_due:
  assumes m: "marked now1 s (fined_ids now1 s (overdueBooks now1 s)) s1"
    and same: "overdue_set now2 s = overdue_set now1 s"
    and b: "b \<in> set (overdueBooks now2 s1)"
  shows "calculateFine now2 (ib_id b) s1 = None"
proof -
  let ?F = "fined_ids now1 s (overdueBooks now1 s)"
  from m have rows: "issued_books s1 = map (mark_overdue ?F) (issued_books s)"
    by (simp add: marked_def)
  from b rows obtain r where r: "r \<in> set (issued_books s)" and br: "b = mark_overdue ?F r"
    and st: "ib_status b = issued" and due: "ib_due_date b < dateonly now2"
    by (auto simp: overdueBooks_def)
  have notin: "ib_id r \<notin> ?F"
  proof
    assume "ib_id r \<in> ?F"
    then have "ib_status b = overdue" using br by (simp add: mark_overdue_def)
    with st show False by simp
  qed
  then have eq: "b = r" using br by (simp add: mark_overdue_def)
  with r st due have sel2: "r \<in> set (overdueBooks now2 s)" by (simp add: overdueBooks_def)
  have "calculateFine now2 (ib_id r) s = None"
  proof (rule ccontr)
    assume "calculateFine now2 (ib_id r) s \<noteq> None"
    with sel2 have "r \<in> set (overdue_set now2 s)" by (simp add: overdue_set_def)
    with same have "r \<in> set (overdue_set now1 s)" by simp
    then have "ib_id r \<in> ?F" by (simp add: overdue_set_def fined_ids_def)
    with notin show False by simp
  qed
  with eq calculateFine_marked_at[OF m, of now2 "ib_id b"] show ?thesis by simp
qed

text \<open>
  C4. A second sweep right after a first one, on the same overdue set (the loans the
  sweep selects and has a fine for are the same at both instants, as for two instants
  within one day), finds no fine to write: its report is empty and it leaves the
  database as the first sweep left it, so it adds no fine row and the total of the fine
  amounts is the same.
\<close>

theorem sweep_twice_idempotent:
  assumes "overdue_set now2 s = overdue_set now1 s"
  shows "let s1 = snd (generateFinesForOverdueBooks no_fault now1 s);
             again = generateFinesForOverdueBooks no_fault now2 s1
         in fst again = Inr [] \<and> snd again = s1 \<and> fines (snd again) = fines s1
            \<and> total_fine_amount (snd again) = total_fine_amount s1"
proof -
  let ?s1 = "snd (generateFinesForOverdueBooks no_fault now1 s)"
  have m: "marked now1 s (fined_ids now1 s (overdueBooks now1 s)) ?s1"
    by (rule sweep_marked(2))
  have "\<forall>b \<in> set (overdueBooks now2 ?s1). calculateFine now2 (ib_id b) ?s1 = None"
    using second_sweep_nothing_due[OF m assms] by simp
  then have "generateFinesForOverdueBooks no_fault now2 ?s1 = (Inr [], ?s1)"
    unfolding generateFinesForOverdueBooks_def[of no_fault now2] by (rule sweep_loop_nothing)
  then show ?thesis by (simp add: Let_def)
qed

text \<open>
  Two sweeps over loans 1 and 2 at 09:00 and 09:01 of 2024-01-11: both loans are fined by
  the first (two and four days), none by the second.
\<close>

theorem sweep_twice_idempotent_witness:
  "overdue_set 1704963660000 ex_db_two = overdue_set 1704963600000 ex_db_two \<and>
   map ib_id (overdue_set 1704963600000 ex_db_two) = [1, 2] \<and>
   map f_amount (fines (snd (generateFinesForOverdueBooks no_fault 1704963600000 ex_db_two)))
     = [1000, 2000] \<and>
   (let s1 = snd (generateFinesForOverdueBooks no_fault 1704963600000 ex_db_two);
        again = generateFinesForOverdueBooks no_fault 1704963660000 s1
    in fst again = Inr [] \<and> snd again = s1 \<and> fines (snd again) = fines s1
       \<and> total_fine_amount (snd again) = total_fine_amount s1)"
proof -
  have h: "overdue_set 1704963660000 ex_db_two = overdue_set 1704963600000 ex_db_two"
    by code_simp
  have i: "map ib_id (overdue_set 1704963600000 ex_db_two) = [1, 2]" by code_simp
  have e: "map f_amount (fines (snd (generateFinesForOverdueBooks no_fault 1704963600000
             ex_db_two))) = [1000, 2000]"
    by code_simp
  from sweep_twice_idempotent[OF h] h i e show ?thesis by blast
qed

text \<open>
  C2. The sweep of 2024-01-11 fines loan 1 (due 2024-01-10) for one day, 5.00, and sets it
  to overdue. The sweep of 2024-01-12 selects the loans in status issued only, so it
  passes over the loan: the pending fine stays at one day and 5.00, while \<open>calculateFine\<close>
  gives two days and 10.00 for that date.
\<close>

theorem sweep_leaves_fine_stale:
  "(let s1 = snd (generateFinesForOverdueBooks no_fault 1704931200000 ex_db);
        s2 = snd (generateFinesForOverdueBooks no_fault 1705017600000 s1)
    in map (\<lambda>f. (f_status f, f_amount f, f_days_overdue f)) (fines s2) = [(pending, 500, 1)]
       \<and> map ib_status (issued_books s1) = [overdue]
       \<and> overdueBooks 1705017600000 s1 = []
       \<and> map_option (\<lambda>d. (fd_amount d, fd_days_overdue d)) (calculateFine 1705017600000 1 s2)
           = Some (1000, 2))"
  by code_simp

lemma calculateFine_id: "calculateFine now k s = Some d \<Longrightarrow> fd_issued_book_id d = k"
  by (auto simp: calculateFine_row calculateFine_on_def Let_def split: option.splits if_splits)

lemma find_map_same:
  "\<forall>r \<in> set xs. P (h r) = P r \<Longrightarrow> find P (map h xs) = map_option h (find P xs)"
  by (induction xs) auto

lemma find_SomeD: "find P xs = Some x \<Longrightarrow> x \<in> set xs \<and> P x"
  by (induction xs) (auto split: if_splits)

lemma find_append_miss:
  "\<not> P y \<Longrightarrow> find P (xs @ [y]) = find P xs"
  by (induction xs) auto

lemma find_append_hit:
  "find P xs = None \<Longrightarrow> P y \<Longrightarrow> find P (xs @ [y]) = Some y"
  by (induction xs) (auto split: if_splits)

lemma find_append_found:
  "find P xs = Some x \<Longrightarrow> find P (xs @ ys) = Some x"
  by (induction xs) (auto split: if_splits)

lemma same_f_id:
  assumes "distinct (map f_id xs)" and "x \<in> set xs" and "y \<in> set xs" and "f_id x = f_id y"
  shows "x = y"
  using assms by (meson distinct_map inj_on_def)

lemma fold_max_ge: "x \<in> set xs \<Longrightarrow> x \<le> fold max xs (a::nat)"
proof (induction xs arbitrary: a)
  case Nil
  then show ?case by simp
next
  case (Cons y ys)
  have mono: "\<And>b. b \<le> fold max ys (b::nat)"
  proof -
    fix b :: nat show "b \<le> fold max ys b"
    proof (induction ys arbitrary: b)
      case Nil show ?case by simp
    next
      case (Cons z zs)
      have "b \<le> max z b" by simp
      also have "\<dots> \<le> fold max zs (max z b)" by (rule Cons.IH)
      finally show ?case by simp
    qed
  qed
  show ?case
  proof (cases "x = y")
    case True
    have "y \<le> max y a" by simp
    also have "\<dots> \<le> fold max ys (max y a)" by (rule mono)
    finally show ?thesis using True by simp
  next
    case False
    with Cons.prems have "x \<in> set ys" by simp
    then show ?thesis using Cons.IH by simp
  qed
qed

lemma next_Fine_id_fresh: "next_Fine_id s \<notin> f_id ` set (fines s)"
proof
  assume "next_Fine_id s \<in> f_id ` set (fines s)"
  then have "next_Fine_id s \<in> set (map f_id (fines s))" by simp
  then have "next_Fine_id s \<le> fold max (map f_id (fines s)) 0" by (rule fold_max_ge)
  then show False by (simp add: next_Fine_id_def)
qed

lemma Fine_save_ids:
  "f_id fine' = f_id fine \<Longrightarrow> map f_id (fines (Fine_save fine' s)) = map f_id (fines s)"
  by (simp add: Fine_save_def)


lemma Fine_save_pending:
  assumes dist: "distinct (map f_id (fines s))"
    and e: "Fine_findOne_pending k2 s = Some e"
    and d: "fd_issued_book_id d = k2"
  shows "Fine_findOne_pending k (Fine_save (Fine_update_data e d) s)
           = (if k = k2 then Some (Fine_update_data e d) else Fine_findOne_pending k s)"
proof -
  let ?e' = "Fine_update_data e d"
  let ?P = "\<lambda>f. f_issued_book_id f = k \<and> f_status f = pending"
  let ?h = "\<lambda>r. if f_id r = f_id ?e' then ?e' else r"
  from e have e_in: "e \<in> set (fines s)" and e_k2: "f_issued_book_id e = k2"
    and e_p: "f_status e = pending"
    using find_SomeD[of "\<lambda>f. f_issued_book_id f = k2 \<and> f_status f = pending" "fines s" e]
    by (simp_all add: Fine_findOne_pending_def)
  have id: "f_id ?e' = f_id e" by (simp add: Fine_update_data_def)
  have e': "f_issued_book_id ?e' = k2" "f_status ?e' = pending"
    using d e_p by (simp_all add: Fine_update_data_def)
  have only: "\<And>r. r \<in> set (fines s) \<Longrightarrow> f_id r = f_id e \<Longrightarrow> r = e"
    using same_f_id[OF dist _ e_in] by blast
  have same: "\<forall>r \<in> set (fines s). ?P (?h r) = ?P r"
  proof
    fix r assume r: "r \<in> set (fines s)"
    show "?P (?h r) = ?P r"
    proof (cases "f_id r = f_id e")
      case True
      with only[OF r] have "r = e" by simp
      with e' e_k2 e_p id show ?thesis by simp
    next
      case False
      with id show ?thesis by simp
    qed
  qed
  have step: "Fine_findOne_pending k (Fine_save ?e' s) = map_option ?h (find ?P (fines s))"
    using find_map_same[OF same] by (simp add: Fine_findOne_pending_def Fine_save_def)
  show ?thesis
  proof (cases "k = k2")
    case True
    with e have "find ?P (fines s) = Some e" by (simp add: Fine_findOne_pending_def)
    with step id True show ?thesis by simp
  next
    case False
    show ?thesis
    proof (cases "find ?P (fines s)")
      case None
      with step False show ?thesis by (simp add: Fine_findOne_pending_def)
    next
      case (Some f)
      then have "f \<in> set (fines s)" and "f_issued_book_id f = k"
        using find_SomeD[of ?P "fines s" f] by simp_all
      with False e_k2 have "f \<noteq> e" by auto
      with only \<open>f \<in> set (fines s)\<close> have "f_id f \<noteq> f_id e" by blast
      with step Some False id show ?thesis by (simp add: Fine_findOne_pending_def)
    qed
  qed
qed

lemma Fine_insert_pending:
  assumes none: "Fine_findOne_pending k2 s = None"
    and d: "fd_issued_book_id d = k2"
  shows "Fine_findOne_pending k (Fine_insert (Fine_new now d s) s)
           = (if k = k2 then Some (Fine_new now d s) else Fine_findOne_pending k s)"
proof -
  let ?n = "Fine_new now d s"
  have n: "f_issued_book_id ?n = k2" "f_status ?n = pending"
    using d by (simp_all add: Fine_new_def)
  show ?thesis
  proof (cases "k = k2")
    case True
    with none n show ?thesis
      by (simp add: Fine_findOne_pending_def Fine_insert_def find_append_hit)
  next
    case False
    with n show ?thesis
      by (simp add: Fine_findOne_pending_def Fine_insert_def find_append_miss)
  qed
qed

lemma Fine_insert_distinct:
  "distinct (map f_id (fines s)) \<Longrightarrow>
   distinct (map f_id (fines (Fine_insert (Fine_new now d s) s)))"
  using next_Fine_id_fresh[of s] by (simp add: Fine_insert_def Fine_new_def)

lemma set_status_fines [simp]: "fines (IssuedBook_set_status k st s) = fines s"
  by (simp add: IssuedBook_set_status_def)

lemma set_status_pending [simp]:
  "Fine_findOne_pending k' (IssuedBook_set_status k st s) = Fine_findOne_pending k' s"
  by (simp add: Fine_findOne_pending_def)

lemma upserted_step:
  assumes up: "upserted now s M s'"
    and calc: "calculateFine now k s = Some d"
    and dist: "distinct (map f_id (fines s1))"
    and self: "Fine_findOne_pending k s1 = Some f" "fine_matches f d"
    and other: "\<And>k'. k' \<noteq> k \<Longrightarrow> Fine_findOne_pending k' s1 = Fine_findOne_pending k' s'"
  shows "upserted now s (insert k M) (IssuedBook_set_status k overdue s1)"
  unfolding upserted_def
proof (intro conjI ballI)
  show "distinct (map f_id (fines (IssuedBook_set_status k overdue s1)))"
    using dist by simp
next
  fix k' assume k': "k' \<in> insert k M"
  show "\<exists>d f. calculateFine now k' s = Some d \<and>
          Fine_findOne_pending k' (IssuedBook_set_status k overdue s1) = Some f \<and>
          fine_matches f d"
  proof (cases "k' = k")
    case True
    with calc self show ?thesis by auto
  next
    case False
    with k' have "k' \<in> M" by simp
    with up obtain d' f' where "calculateFine now k' s = Some d'"
      "Fine_findOne_pending k' s' = Some f'" "fine_matches f' d'"
      unfolding upserted_def by blast
    with other[OF False] show ?thesis by auto
  qed
qed

lemma sweep_loop_upserted:
  assumes "marked now s M s'" and "upserted now s M s'"
  shows "upserted now s (M \<union> fined_ids now s bs) (snd (sweep_loop no_fault now bs rs s'))"
  using assms
proof (induction bs arbitrary: M s' rs)
  case Nil
  then show ?case by (simp add: fined_ids_def)
next
  case (Cons b bs)
  have calc: "calculateFine now (ib_id b) s' = calculateFine now (ib_id b) s"
    using Cons.prems(1) by (rule calculateFine_marked)
  have dist: "distinct (map f_id (fines s'))"
    using Cons.prems(2) by (simp add: upserted_def)
  show ?case
  proof (cases "calculateFine now (ib_id b) s")
    case None
    then have ids: "fined_ids now s (b # bs) = fined_ids now s bs"
      by (simp add: fined_ids_def)
    from Cons.IH[OF Cons.prems, of rs] None calc ids show ?thesis by simp
  next
    case (Some fd)
    then have ids: "M \<union> fined_ids now s (b # bs) = insert (ib_id b) M \<union> fined_ids now s bs"
      by (simp add: fined_ids_def)
    have ne: "calculateFine now (ib_id b) s \<noteq> None" using Some by simp
    have fdk: "fd_issued_book_id fd = ib_id b" using Some by (rule calculateFine_id)
    show ?thesis
    proof (cases "Fine_findOne_pending (ib_id b) s'")
      case None
      let ?n = "Fine_new now fd s'"
      let ?s1 = "Fine_insert ?n s'"
      have m: "marked now s (insert (ib_id b) M) (IssuedBook_set_status (ib_id b) overdue ?s1)"
        by (rule marked_step[OF Cons.prems(1) ne]) (simp_all add: Fine_insert_def)
      have u: "upserted now s (insert (ib_id b) M) (IssuedBook_set_status (ib_id b) overdue ?s1)"
      proof (rule upserted_step[OF Cons.prems(2) Some])
        show "distinct (map f_id (fines ?s1))" using dist by (rule Fine_insert_distinct)
        show "Fine_findOne_pending (ib_id b) ?s1 = Some ?n"
          by (simp add: Fine_insert_pending[OF None fdk])
        show "fine_matches ?n fd" by (simp add: fine_matches_def Fine_new_def)
        show "\<And>k'. k' \<noteq> ib_id b \<Longrightarrow>
                Fine_findOne_pending k' ?s1 = Fine_findOne_pending k' s'"
          by (simp add: Fine_insert_pending[OF None fdk])
      qed
      from Cons.IH[OF m u] Some calc None ids show ?thesis
        by (simp add: no_fault_def Let_def)
    next
      case (Some e)
      let ?e' = "Fine_update_data e fd"
      let ?s1 = "Fine_save ?e' s'"
      have ep: "f_status e = pending"
        using find_SomeD[of "\<lambda>f. f_issued_book_id f = ib_id b \<and> f_status f = pending"
            "fines s'" e] Some
        by (simp add: Fine_findOne_pending_def)
      have m: "marked now s (insert (ib_id b) M) (IssuedBook_set_status (ib_id b) overdue ?s1)"
        by (rule marked_step[OF Cons.prems(1) ne]) (simp_all add: Fine_save_def)
      have u: "upserted now s (insert (ib_id b) M) (IssuedBook_set_status (ib_id b) overdue ?s1)"
      proof (rule upserted_step[OF Cons.prems(2) \<open>calculateFine now (ib_id b) s = Some fd\<close>])
        show "distinct (map f_id (fines ?s1))"
          using dist by (simp add: Fine_save_ids Fine_update_data_def)
        show "Fine_findOne_pending (ib_id b) ?s1 = Some ?e'"
          by (simp add: Fine_save_pending[OF dist Some fdk])
        show "fine_matches ?e' fd" using ep by (simp add: fine_matches_def Fine_update_data_def)
        show "\<And>k'. k' \<noteq> ib_id b \<Longrightarrow>
                Fine_findOne_pending k' ?s1 = Fine_findOne_pending k' s'"
          by (simp add: Fine_save_pending[OF dist Some fdk])
      qed
      from Cons.IH[OF m u] \<open>calculateFine now (ib_id b) s = Some fd\<close> calc Some ids
      show ?thesis by (simp add: no_fault_def Let_def)
    qed
  qed
qed

lemma upserted_refl: "distinct (map f_id (fines s)) \<Longrightarrow> upserted now s {} s"
  by (simp add: upserted_def)

lemma sweep_upserted:
  assumes "distinct (map f_id (fines s))"
  shows "upserted now s (fined_ids now s (overdueBooks now s))
           (snd (generateFinesForOverdueBooks no_fault now s))"
  using sweep_loop_upserted[OF marked_refl upserted_refl[OF assms],
      where bs = "overdueBooks now s" and rs = "[]"]
  by (simp add: generateFinesForOverdueBooks_def)

text \<open>
  C3, amended. A sweep that no store call aborts, over fines with distinct keys: a loan in
  status issued whose due date is strictly before today (the day of the sweep's instant)
  ends the sweep in status overdue with a pending fine holding the values of
  \<open>calculateFine\<close> when \<open>calculateFine\<close> gives a fine for it, and is left as it was
  (in status issued) when \<open>calculateFine\<close> gives none, as within the grace period.
\<close>

theorem sweep_marks_fined_loans:
  assumes dist: "distinct (map f_id (fines s))"
    and loan: "IssuedBook_findByPk k s = Some loan"
    and st: "ib_status loan = issued" and due: "ib_due_date loan < dateonly now"
  shows "let s1 = snd (generateFinesForOverdueBooks no_fault now s) in
         (case calculateFine now k s of
            None \<Rightarrow> IssuedBook_findByPk k s1 = Some loan
          | Some d \<Rightarrow>
              IssuedBook_findByPk k s1 = Some (loan\<lparr>ib_status := overdue\<rparr>) \<and>
              (\<exists>f. Fine_findOne_pending k s1 = Some f \<and> fine_matches f d))"
proof -
  let ?s1 = "snd (generateFinesForOverdueBooks no_fault now s)"
  let ?F = "fined_ids now s (overdueBooks now s)"
  have m: "marked now s ?F ?s1" by (rule sweep_marked(2))
  have u: "upserted now s ?F ?s1" using dist by (rule sweep_upserted)
  have kl: "ib_id loan = k" and inl: "loan \<in> set (issued_books s)"
    using find_ib_id[of k "issued_books s" loan] loan by (simp_all add: IssuedBook_findByPk_def)
  from inl st due have sel: "loan \<in> set (overdueBooks now s)" by (simp add: overdueBooks_def)
  have row: "IssuedBook_findByPk k ?s1 = Some (mark_overdue ?F loan)"
    using m loan by (simp add: marked_def IssuedBook_findByPk_def find_mark)
  show ?thesis
  proof (cases "calculateFine now k s")
    case None
    then have "k \<notin> ?F" using m by (auto simp: marked_def)
    with row kl None show ?thesis by (simp add: mark_overdue_def)
  next
    case (Some d)
    with sel kl have kF: "k \<in> ?F" by (force simp: fined_ids_def)
    with u Some obtain f where "Fine_findOne_pending k ?s1 = Some f" "fine_matches f d"
      unfolding upserted_def by force
    with row kl kF Some show ?thesis by (simp add: mark_overdue_def)
  qed
qed

theorem sweep_marks_fined_loans_witness:
  "distinct (map f_id (fines ex_db)) \<and> IssuedBook_findByPk 1 ex_db = Some ex_loan \<and>
   ib_status ex_loan = issued \<and> ib_due_date ex_loan < dateonly 1704931200000 \<and>
   (\<exists>d. calculateFine 1704931200000 1 ex_db = Some d \<and> fd_amount d = 500 \<and>
      (let s1 = snd (generateFinesForOverdueBooks no_fault 1704931200000 ex_db) in
         IssuedBook_findByPk 1 s1 = Some (ex_loan\<lparr>ib_status := overdue\<rparr>) \<and>
         (\<exists>f. Fine_findOne_pending 1 s1 = Some f \<and> fine_matches f d)))"
proof -
  have a: "distinct (map f_id (fines ex_db))" by code_simp
  have c: "ib_status ex_loan = issued" by code_simp
  have d: "ib_due_date ex_loan < dateonly 1704931200000" by code_simp
  have e: "calculateFine 1704931200000 1 ex_db
        = Some \<lparr> fd_issued_book_id = 1, fd_student_id = 42, fd_amount = 500,
                 fd_days_overdue = 1, fd_fine_rate_per_day = 500 \<rparr>"
    by code_simp
  from sweep_marks_fined_loans[OF a ex_loan_found c d] e a ex_loan_found c d
  show ?thesis by (simp add: Let_def)
qed

text \<open>
  C3 as stated fails: two days after the due date under the example policy (three days
  of grace) the sweep selects loan 1 and leaves it in status issued.
\<close>

theorem sweep_keeps_grace_loans_issued:
  "map ib_id (overdueBooks 1705017600000 ex_db_policy) = [1] \<and>
   map ib_status (issued_books ex_db_policy) = [issued] \<and>
   map ib_status (issued_books
     (snd (generateFinesForOverdueBooks no_fault 1705017600000 ex_db_policy))) = [issued]"
  by code_simp

lemma sweep_loop_append:
  "sweep_loop rejects now (xs @ ys) rs s =
     (case sweep_loop rejects now xs rs s of
        (Inl e, s') \<Rightarrow> (Inl e, s')
      | (Inr rs', s') \<Rightarrow> sweep_loop rejects now ys rs' s')"
  by (induction xs arbitrary: rs s) (simp_all add: Let_def split: option.splits)

lemma sweep_loop_no_rejection:
  "\<forall>x \<in> set xs. \<not> rejects (ib_id x) \<Longrightarrow>
   sweep_loop rejects now xs rs s = sweep_loop no_fault now xs rs s"
  by (induction xs arbitrary: rs s) (simp_all add: Let_def no_fault_def split: option.splits)

text \<open>
  C5, amended. When the store rejects the write for a selected loan that has a fine due,
  and rejected none before it, the sweep raises the error and returns no report; the
  database is as the loans before that one left it, so the loan and the loans after it
  are not processed.
\<close>

theorem sweep_aborts_on_rejection:
  assumes sel: "overdueBooks now s = pre @ b # post"
    and ok: "\<forall>x \<in> set pre. \<not> rejects (ib_id x)"
    and rej: "rejects (ib_id b)"
    and fine: "calculateFine now (ib_id b) s \<noteq> None"
  shows "generateFinesForOverdueBooks rejects now s
           = (Inl StoreError, snd (sweep_loop no_fault now pre [] s)) \<and>
         issued_books (snd (generateFinesForOverdueBooks rejects now s))
           = map (mark_overdue (fined_ids now s pre)) (issued_books s)"
proof -
  let ?s' = "snd (sweep_loop no_fault now pre [] s)"
  from sweep_loop_marked[OF marked_refl, where bs = pre and rs = "[]" and now = now and s = s]
  obtain rs' where rs': "fst (sweep_loop no_fault now pre [] s) = Inr rs'"
    and m: "marked now s (fined_ids now s pre) ?s'"
    by auto
  from rs' have pre_run: "sweep_loop rejects now pre [] s = (Inr rs', ?s')"
    using sweep_loop_no_rejection[OF ok, of now "[]" s] by (simp add: prod_eq_iff)
  from fine calculateFine_marked[OF m, of "ib_id b"]
  obtain d where d: "calculateFine now (ib_id b) ?s' = Some d" by auto
  have "sweep_loop rejects now (b # post) rs' ?s' = (Inl StoreError, ?s')"
    using d rej by simp
  with pre_run have run: "generateFinesForOverdueBooks rejects now s = (Inl StoreError, ?s')"
    by (simp add: generateFinesForOverdueBooks_def sel sweep_loop_append)
  from m have "issued_books ?s' = map (mark_overdue (fined_ids now s pre)) (issued_books s)"
    by (simp add: marked_def)
  with run show ?thesis by simp
qed

theorem sweep_aborts_on_rejection_witness:
  "overdueBooks 1704931200000 ex_db_two = [ex_loan] @ ex_loan2 # [] \<and>
   ib_id ex_loan \<noteq> 2 \<and> ib_id ex_loan2 = 2 \<and>
   calculateFine 1704931200000 (ib_id ex_loan2) ex_db_two \<noteq> None \<and>
   generateFinesForOverdueBooks (\<lambda>k. k = 2) 1704931200000 ex_db_two
     = (Inl StoreError, snd (sweep_loop no_fault 1704931200000 [ex_loan] [] ex_db_two)) \<and>
   map ib_status (issued_books
      (snd (generateFinesForOverdueBooks (\<lambda>k. k = 2) 1704931200000 ex_db_two)))
     = [overdue, issued]"
proof -
  have a: "overdueBooks 1704931200000 ex_db_two = [ex_loan] @ ex_loan2 # []" by code_simp
  have b: "\<forall>x \<in> set [ex_loan]. \<not> (\<lambda>k. k = 2) (ib_id x)" by code_simp
  have c: "(\<lambda>k. k = 2) (ib_id ex_loan2)" by code_simp
  have d: "calculateFine 1704931200000 (ib_id ex_loan2) ex_db_two \<noteq> None" by code_simp
  have e: "map ib_status (issued_books
      (snd (generateFinesForOverdueBooks (\<lambda>k. k = 2) 1704931200000 ex_db_two)))
     = [overdue, issued]"
    by code_simp
  from sweep_aborts_on_rejection[of 1704931200000 ex_db_two "[ex_loan]" ex_loan2 "[]"
      "\<lambda>k. k = 2", OF a b c d] a b c d e
  show ?thesis by simp
qed

text \<open>
  C5 as stated fails: with the write for loan 1 rejected, the sweep over loans 1 and 2
  returns the error and no report, and loan 2, which has a fine due, is left untouched.
\<close>

theorem sweep_stops_at_first_rejection:
  "map ib_id (overdueBooks 1704931200000 ex_db_two) = [1, 2] \<and>
   calculateFine 1704931200000 2 ex_db_two \<noteq> None \<and>
   generateFinesForOverdueBooks (\<lambda>k. k = 1) 1704931200000 ex_db_two
     = (Inl StoreError, ex_db_two)"
  by code_simp

section \<open>Properties of payment, waiver, issue and return\<close>

lemma Fine_save_other:
  assumes "f_id fine \<noteq> k"
  shows "Fine_findByPk k (Fine_save fine s) = Fine_findByPk k s"
proof -
  let ?h = "\<lambda>r. if f_id r = f_id fine then fine else r"
  have same: "\<forall>r \<in> set (fines s). (f_id (?h r) = k) = (f_id r = k)"
    using assms by auto
  have "Fine_findByPk k (Fine_save fine s) = map_option ?h (Fine_findByPk k s)"
    using find_map_same[OF same] by (simp add: Fine_findByPk_def Fine_save_def)
  also have "\<dots> = Fine_findByPk k s"
  proof (cases "Fine_findByPk k s")
    case None then show ?thesis by simp
  next
    case (Some g)
    then have "f_id g = k"
      using find_SomeD[of "\<lambda>r. f_id r = k" "fines s" g] by (simp add: Fine_findByPk_def)
    with assms Some show ?thesis by auto
  qed
  finally show ?thesis .
qed

lemma Fine_save_self:
  assumes "Fine_findByPk k s = Some f" and "f_id fine = k"
  shows "Fine_findByPk k (Fine_save fine s) = Some fine"
proof -
  let ?h = "\<lambda>r. if f_id r = f_id fine then fine else r"
  have same: "\<forall>r \<in> set (fines s). (f_id (?h r) = k) = (f_id r = k)"
    using assms(2) by auto
  have fk: "f_id f = k"
    using find_SomeD[of "\<lambda>r. f_id r = k" "fines s" f] assms(1) by (simp add: Fine_findByPk_def)
  have "Fine_findByPk k (Fine_save fine s) = map_option ?h (Fine_findByPk k s)"
    using find_map_same[OF same] by (simp add: Fine_findByPk_def Fine_save_def)
  with assms fk show ?thesis by simp
qed

lemma Fine_insert_found:
  "Fine_findByPk k s = Some f \<Longrightarrow> Fine_findByPk k (Fine_insert n s) = Some f"
  by (simp add: Fine_findByPk_def Fine_insert_def find_append_found)

lemma set_status_findByPk [simp]:
  "Fine_findByPk k' (IssuedBook_set_status k st s) = Fine_findByPk k' s"
  by (simp add: Fine_findByPk_def)

lemma sweep_loop_keeps_settled:
  assumes "distinct (map f_id (fines s))" and "Fine_findByPk k s = Some f"
    and "f_status f \<noteq> pending"
  shows "distinct (map f_id (fines (snd (sweep_loop rejects now bs rs s)))) \<and>
         Fine_findByPk k (snd (sweep_loop rejects now bs rs s)) = Some f"
  using assms
proof (induction bs arbitrary: rs s)
  case Nil
  then show ?case by simp
next
  case (Cons b bs)
  have f_in: "f \<in> set (fines s)" and fk: "f_id f = k"
    using find_SomeD[of "\<lambda>r. f_id r = k" "fines s" f] Cons.prems(2)
    by (simp_all add: Fine_findByPk_def)
  show ?case
  proof (cases "calculateFine now (ib_id b) s")
    case None
    with Cons.IH[OF Cons.prems] show ?thesis by simp
  next
    case (Some fd)
    note calc = this
    show ?thesis
    proof (cases "rejects (ib_id b)")
      case True
      with calc Cons.prems show ?thesis by simp
    next
      case False
      show ?thesis
      proof (cases "Fine_findOne_pending (ib_id b) s")
        case None
        let ?s2 = "IssuedBook_set_status (ib_id b) overdue (Fine_insert (Fine_new now fd s) s)"
        have d: "distinct (map f_id (fines ?s2))"
          using Fine_insert_distinct[OF Cons.prems(1)] by simp
        have g: "Fine_findByPk k ?s2 = Some f"
          using Fine_insert_found[OF Cons.prems(2)] by simp
        from Cons.IH[OF d g Cons.prems(3)] calc False None show ?thesis
          by (simp add: Let_def)
      next
        case (Some e)
        let ?e' = "Fine_update_data e fd"
        let ?s2 = "IssuedBook_set_status (ib_id b) overdue (Fine_save ?e' s)"
        have e_in: "e \<in> set (fines s)" and ep: "f_status e = pending"
          using find_SomeD[of "\<lambda>f. f_issued_book_id f = ib_id b \<and> f_status f = pending"
              "fines s" e] Some
          by (simp_all add: Fine_findOne_pending_def)
        have "e \<noteq> f" using ep Cons.prems(3) by auto
        with same_f_id[OF Cons.prems(1) e_in f_in] have "f_id e \<noteq> k" using fk by auto
        then have idk: "f_id ?e' \<noteq> k" by (simp add: Fine_update_data_def)
        have d: "distinct (map f_id (fines ?s2))"
          using Cons.prems(1) by (simp add: Fine_save_ids Fine_update_data_def)
        have g: "Fine_findByPk k ?s2 = Some f"
          using Fine_save_other[OF idk] Cons.prems(2) by simp
        from Cons.IH[OF d g Cons.prems(3)] calc False Some show ?thesis
          by (simp add: Let_def)
      qed
    qed
  qed
qed

lemma issueBook_fines: "issueBook now lib sid bid due nts s = Inr (l, s') \<Longrightarrow> fines s' = fines s"
  by (auto simp: issueBook_def Let_def split: option.splits if_splits)

lemma payFine_other:
  assumes "payFine now k' paidDate s = Inr (g, s')" and "k' \<noteq> k"
  shows "Fine_findByPk k s' = Fine_findByPk k s"
proof -
  from assms(1) obtain e where e: "Fine_findByPk k' s = Some e"
    and s': "s' = Fine_save g s" and g: "f_id g = f_id e"
    by (auto simp: payFine_def Let_def split: option.splits if_splits)
  have "f_id e = k'"
    using find_SomeD[of "\<lambda>r. f_id r = k'" "fines s" e] e by (simp add: Fine_findByPk_def)
  with g assms(2) have "f_id g \<noteq> k" by simp
  with s' show ?thesis by (simp add: Fine_save_other)
qed

lemma waiveFine_other:
  assumes "waiveFine k' notes s = Inr (g, s')" and "k' \<noteq> k"
  shows "Fine_findByPk k s' = Fine_findByPk k s"
proof -
  from assms(1) obtain e where e: "Fine_findByPk k' s = Some e"
    and s': "s' = Fine_save g s" and g: "f_id g = f_id e"
    by (auto simp: waiveFine_def Let_def split: option.splits if_splits)
  have "f_id e = k'"
    using find_SomeD[of "\<lambda>r. f_id r = k'" "fines s" e] e by (simp add: Fine_findByPk_def)
  with g assms(2) have "f_id g \<noteq> k" by simp
  with s' show ?thesis by (simp add: Fine_save_other)
qed

text \<open>
  C6, amended. Over fines with distinct keys, a paid fine is changed by no call of
  \<open>payFine\<close> or \<open>waiveFine\<close> (on it they fail, on another fine they leave it as it
  is), by no sweep and by no issue. A waived fine is left as it is by the sweep, by
  issue and by calls on other fines, and keeps status and amount under \<open>waiveFine\<close>;
  \<open>payFine\<close> marks it paid and keeps its amount.
\<close>

theorem terminal_fines_preserved:
  assumes dist: "distinct (map f_id (fines s))" and f: "Fine_findByPk k s = Some f"
    and st: "f_status f = paid \<or> f_status f = waived"
  shows "(f_status f = paid \<longrightarrow>
            payFine now k paidDate s = Inl AlreadyPaid \<and>
            waiveFine k notes s = Inl CannotWaivePaid) \<and>
         (f_status f = waived \<longrightarrow>
            (\<exists>f' s'. waiveFine k notes s = Inr (f', s') \<and> Fine_findByPk k s' = Some f' \<and>
                      f_status f' = waived \<and> f_amount f' = f_amount f) \<and>
            (\<exists>f' s'. payFine now k paidDate s = Inr (f', s') \<and> Fine_findByPk k s' = Some f' \<and>
                      f_status f' = paid \<and> f_amount f' = f_amount f)) \<and>
         (k' \<noteq> k \<longrightarrow>
            (\<forall>g s'. payFine now k' paidDate s = Inr (g, s') \<longrightarrow> Fine_findByPk k s' = Some f) \<and>
            (\<forall>g s'. waiveFine k' notes s = Inr (g, s') \<longrightarrow> Fine_findByPk k s' = Some f)) \<and>
         Fine_findByPk k (snd (generateFinesForOverdueBooks rejects now s)) = Some f \<and>
         (\<forall>l s'. issueBook now lib sid bid due nts s = Inr (l, s') \<longrightarrow>
                  Fine_findByPk k s' = Some f)"
proof (intro conjI impI allI)
  assume "f_status f = paid"
  with f show "payFine now k paidDate s = Inl AlreadyPaid"
    and "waiveFine k notes s = Inl CannotWaivePaid"
    by (simp_all add: payFine_def waiveFine_def)
next
  assume w: "f_status f = waived"
  have fk: "f_id f = k"
    using find_SomeD[of "\<lambda>r. f_id r = k" "fines s" f] f by (simp add: Fine_findByPk_def)
  let ?w = "f\<lparr>f_status := waived, f_notes := Some (case notes of None \<Rightarrow> [] | Some n \<Rightarrow> n)\<rparr>"
  let ?p = "f\<lparr>f_status := paid,
               f_paid_date := Some (dateonly (case paidDate of None \<Rightarrow> now | Some d \<Rightarrow> d))\<rparr>"
  have "waiveFine k notes s = Inr (?w, Fine_save ?w s)"
    using f w by (simp add: waiveFine_def Let_def)
  moreover have "Fine_findByPk k (Fine_save ?w s) = Some ?w"
    using Fine_save_self[OF f, of ?w] fk by simp
  ultimately show "\<exists>f' s'. waiveFine k notes s = Inr (f', s') \<and> Fine_findByPk k s' = Some f' \<and>
                      f_status f' = waived \<and> f_amount f' = f_amount f"
    by simp
  have "payFine now k paidDate s = Inr (?p, Fine_save ?p s)"
    using f w by (simp add: payFine_def Let_def)
  moreover have "Fine_findByPk k (Fine_save ?p s) = Some ?p"
    using Fine_save_self[OF f, of ?p] fk by simp
  ultimately show "\<exists>f' s'. payFine now k paidDate s = Inr (f', s') \<and>
                      Fine_findByPk k s' = Some f' \<and>
                      f_status f' = paid \<and> f_amount f' = f_amount f"
    by simp
next
  fix g s' assume "k' \<noteq> k" and "payFine now k' paidDate s = Inr (g, s')"
  then show "Fine_findByPk k s' = Some f" using payFine_other f by simp
next
  fix g s' assume "k' \<noteq> k" and "waiveFine k' notes s = Inr (g, s')"
  then show "Fine_findByPk k s' = Some f" using waiveFine_other f by simp
next
  have "f_status f \<noteq> pending" using st by auto
  from sweep_loop_keeps_settled[OF dist f this]
  show "Fine_findByPk k (snd (generateFinesForOverdueBooks rejects now s)) = Some f"
    by (simp add: generateFinesForOverdueBooks_def)
next
  fix l s' assume "issueBook now lib sid bid due nts s = Inr (l, s')"
  then have "fines s' = fines s" by (rule issueBook_fines)
  with f show "Fine_findByPk k s' = Some f" by (simp add: Fine_findByPk_def)
qed

theorem terminal_fines_preserved_witness:
  "distinct (map f_id (fines ex_db_ledger)) \<and>
   Fine_findByPk 1 ex_db_ledger
     = Some (ex_fine\<lparr>f_status := paid, f_paid_date := Some 19733\<rparr>) \<and>
   Fine_findByPk 2 ex_db_ledger = Some ex_fine2 \<and> f_status ex_fine2 = waived \<and>
   payFine 1705017600000 1 None ex_db_ledger = Inl AlreadyPaid \<and>
   waiveFine 1 None ex_db_ledger = Inl CannotWaivePaid \<and>
   (\<exists>f' s'. waiveFine 2 None ex_db_ledger = Inr (f', s') \<and> Fine_findByPk 2 s' = Some f' \<and>
             f_status f' = waived \<and> f_amount f' = 1000) \<and>
   (\<exists>g s'. payFine 1705017600000 2 None ex_db_ledger = Inr (g, s') \<and>
            Fine_findByPk 1 s'
              = Some (ex_fine\<lparr>f_status := paid, f_paid_date := Some 19733\<rparr>)) \<and>
   map f_id (fines (snd (generateFinesForOverdueBooks no_fault 1705017600000 ex_db_ledger)))
     = [1, 2, 3] \<and>
   Fine_findByPk 2 (snd (generateFinesForOverdueBooks no_fault 1705017600000 ex_db_ledger))
     = Some ex_fine2"
proof -
  let ?p = "ex_fine\<lparr>f_status := paid, f_paid_date := Some 19733\<rparr>"
  have d: "distinct (map f_id (fines ex_db_ledger))" by code_simp
  have f1: "Fine_findByPk 1 ex_db_ledger = Some ?p" by code_simp
  have f2: "Fine_findByPk 2 ex_db_ledger = Some ex_fine2" by code_simp
  have s1: "f_status ?p = paid \<or> f_status ?p = waived" by code_simp
  have s2: "f_status ex_fine2 = paid \<or> f_status ex_fine2 = waived" by code_simp
  have p: "f_status ?p = paid" by code_simp
  have w: "f_status ex_fine2 = waived" by code_simp
  have a: "f_amount ex_fine2 = 1000" by code_simp
  have ne: "(2::nat) \<noteq> 1" by simp
  have ex: "\<exists>g s'. payFine 1705017600000 2 None ex_db_ledger = Inr (g, s')"
    using f2 w by (simp add: payFine_def Let_def)
  have ids: "map f_id (fines (snd (generateFinesForOverdueBooks no_fault 1705017600000
               ex_db_ledger))) = [1, 2, 3]"
    by code_simp
  note paid = terminal_fines_preserved[OF d f1 s1, of 1705017600000 None None 2 no_fault]
  note wvd = terminal_fines_preserved[OF d f2 s2, of 1705017600000 None None 1 no_fault]
  from paid p ne have c1: "payFine 1705017600000 1 None ex_db_ledger = Inl AlreadyPaid"
    and c2: "waiveFine 1 None ex_db_ledger = Inl CannotWaivePaid"
    and c3: "\<forall>g s'. payFine 1705017600000 2 None ex_db_ledger = Inr (g, s') \<longrightarrow>
            Fine_findByPk 1 s' = Some ?p"
    by blast+
  from wvd w a have c4: "\<exists>f' s'. waiveFine 2 None ex_db_ledger = Inr (f', s') \<and>
             Fine_findByPk 2 s' = Some f' \<and> f_status f' = waived \<and> f_amount f' = 1000"
    and c5: "Fine_findByPk 2 (snd (generateFinesForOverdueBooks no_fault 1705017600000
               ex_db_ledger)) = Some ex_fine2"
    by simp_all
  from ex c3 have c6: "\<exists>g s'. payFine 1705017600000 2 None ex_db_ledger = Inr (g, s') \<and>
            Fine_findByPk 1 s' = Some ?p"
    by blast
  from d f1 f2 w c1 c2 c4 c5 c6 ids show ?thesis by blast
qed

text \<open>
  C6 as stated fails: \<open>payFine\<close> turns the waived fine 2 into a paid one, and the
  return of loan 1 on 2024-01-13 sets its paid fine back to pending with a new amount.
\<close>

theorem waived_fine_can_be_paid_and_paid_fine_reopened:
  "map f_status (fines ex_db_ledger) = [paid, waived] \<and>
   (case payFine 1705017600000 2 None ex_db_ledger of
      Inl e \<Rightarrow> False
    | Inr (f', s') \<Rightarrow> map f_status (fines s') = [paid, paid]) \<and>
   map (\<lambda>f. (f_status f, f_amount f)) (fines ex_db_ledger) = [(paid, 500), (waived, 1000)] \<and>
   (case returnBook 1705104000000 1 None None ex_db_ledger of
      Inl e \<Rightarrow> False
    | Inr (fineAmount, s') \<Rightarrow>
        map (\<lambda>f. (f_status f, f_amount f)) (fines s') = [(pending, 1500), (waived, 1000)])"
  by code_simp

text \<open>
  C7. Loan 1 is due on 2024-01-10 and returned with the return date 2024-01-15. The
  request handled on 2024-01-20 stores a fine of ten days and 50.00, and the request
  handled at noon of 2024-01-15 one of six days and 30.00: the fine is computed for the
  clock, not for the return date. Status, return date and available copies are set as
  the claim says.
\<close>

theorem return_fine_ignores_return_date:
  "IssuedBook_findByPk 1 ex_db = Some ex_loan \<and> ib_due_date ex_loan = 19732 \<and>
   Date_of 19737 = 1705276800000 \<and>
   (case returnBook 1705708800000 1 (Some 1705276800000) None ex_db of
      Inl e \<Rightarrow> False
    | Inr (fineAmount, s') \<Rightarrow>
        fineAmount = 5000 \<and>
        map (\<lambda>f. (f_status f, f_days_overdue f, f_amount f)) (fines s') = [(pending, 10, 5000)] \<and>
        map (\<lambda>r. (ib_status r, ib_return_date r)) (issued_books s')
          = [(returned, Some 19737)] \<and>
        map b_available_copies (books s') = [2]) \<and>
   (case returnBook 1705320000000 1 (Some 1705276800000) None ex_db of
      Inl e \<Rightarrow> False
    | Inr (fineAmount, s') \<Rightarrow>
        map (\<lambda>f. (f_status f, f_days_overdue f, f_amount f)) (fines s') = [(pending, 6, 3000)])"
  by code_simp

text \<open>
  C9. Loan 1 is due on 2024-01-10 and no policy row exists (no grace period). Returned
  with the return date 2024-01-11, one day after the due date, by a request handled at
  noon of that day, it gets a fine of two days overdue and 10.00, not of one day: the
  days are counted up to the clock, not up to the return date. A return at noon of the
  due day itself, without a return date in the body, gets a fine of one day, since the
  due date counts as the midnight that starts it.
\<close>

theorem return_one_day_late_counts_two_days:
  "FineConfig_findOne ex_db = None \<and> ib_due_date ex_loan = 19732 \<and>
   Date_of 19733 = 1704931200000 \<and>
   (case returnBook 1704974400000 1 (Some 1704931200000) None ex_db of
      Inl e \<Rightarrow> False
    | Inr (fineAmount, s') \<Rightarrow>
        map (\<lambda>f. (f_status f, f_days_overdue f, f_amount f)) (fines s') = [(pending, 2, 1000)] \<and>
        map (\<lambda>r. (ib_status r, ib_return_date r)) (issued_books s')
          = [(returned, Some 19733)]) \<and>
   (case returnBook 1704888000000 1 None None ex_db of
      Inl e \<Rightarrow> False
    | Inr (fineAmount, s') \<Rightarrow>
        map (\<lambda>f. (f_status f, f_days_overdue f, f_amount f)) (fines s') = [(pending, 1, 500)] \<and>
        map (\<lambda>r. (ib_status r, ib_return_date r)) (issued_books s')
          = [(returned, Some 19732)])"
  by code_simp

lemma one_issued_demote:
  assumes inv: "one_issued_per_pair s"
    and rows: "issued_books s' = map h (issued_books s)"
    and h: "\<And>r. ib_status (h r) = issued \<Longrightarrow> h r = r"
  shows "one_issued_per_pair s'"
proof -
  let ?P = "\<lambda>r. ib_status r = issued"
  let ?g = "\<lambda>r. (ib_student_id r, ib_book_id r)"
  have "filter ?P (map h (issued_books s)) = map h (filter (?P \<circ> h) (issued_books s))"
    by (simp add: filter_map)
  also have "\<dots> = filter (?P \<circ> h) (issued_books s)"
    using h by (intro map_idI) simp
  also have "\<dots> = filter (?P \<circ> h) (filter ?P (issued_books s))"
  proof -
    have "\<And>r. (?P \<circ> h) r \<longleftrightarrow> ?P r \<and> (?P \<circ> h) r"
      using h by (metis comp_apply)
    then have "filter (?P \<circ> h) (issued_books s)
                 = filter (\<lambda>r. ?P r \<and> (?P \<circ> h) r) (issued_books s)"
      by (intro filter_cong) auto
    then show ?thesis by simp
  qed
  finally have "filter ?P (issued_books s') = filter (?P \<circ> h) (filter ?P (issued_books s))"
    using rows by simp
  moreover have "distinct (map ?g (filter (?P \<circ> h) (filter ?P (issued_books s))))"
    using inv unfolding one_issued_per_pair_def by (rule distinct_map_filter)
  ultimately show ?thesis by (simp add: one_issued_per_pair_def)
qed

lemma one_issued_set_status:
  "one_issued_per_pair s \<Longrightarrow> issued_books s1 = issued_books s \<Longrightarrow>
   one_issued_per_pair (IssuedBook_set_status k overdue s1)"
  by (rule one_issued_demote[where h = "\<lambda>r. if ib_id r = k then r\<lparr>ib_status := overdue\<rparr> else r"])
     (auto simp: IssuedBook_set_status_def split: if_splits)

lemma sweep_loop_one_issued:
  "one_issued_per_pair s \<Longrightarrow> one_issued_per_pair (snd (sweep_loop rejects now bs rs s))"
proof (induction bs arbitrary: rs s)
  case Nil
  then show ?case by simp
next
  case (Cons b bs)
  show ?case
  proof (cases "calculateFine now (ib_id b) s")
    case None
    with Cons show ?thesis by simp
  next
    case (Some fd)
    note calc = this
    show ?thesis
    proof (cases "rejects (ib_id b)")
      case True
      with calc Cons.prems show ?thesis by simp
    next
      case False
      show ?thesis
      proof (cases "Fine_findOne_pending (ib_id b) s")
        case None
        have "one_issued_per_pair
                (IssuedBook_set_status (ib_id b) overdue (Fine_insert (Fine_new now fd s) s))"
          by (rule one_issued_set_status[OF Cons.prems]) (simp add: Fine_insert_def)
        from Cons.IH[OF this] calc False None show ?thesis by (simp add: Let_def)
      next
        case (Some e)
        have "one_issued_per_pair
                (IssuedBook_set_status (ib_id b) overdue (Fine_save (Fine_update_data e fd) s))"
          by (rule one_issued_set_status[OF Cons.prems]) (simp add: Fine_save_def)
        from Cons.IH[OF this] calc False Some show ?thesis by (simp add: Let_def)
      qed
    qed
  qed
qed

lemma return_fine_loans: "issued_books (snd (return_fine now rd b s)) = issued_books s"
  by (simp add: return_fine_def Fine_save_def Fine_insert_def split: option.splits)

lemma returnBook_one_issued:
  assumes "one_issued_per_pair s" and "returnBook now k rd nts s = Inr (a, s')"
  shows "one_issued_per_pair s'"
proof -
  from assms(2) obtain b where b: "IssuedBook_findByPk k s = Some b"
    by (auto simp: returnBook_def split: option.splits)
  let ?rd = "case rd of Some d \<Rightarrow> d | None \<Rightarrow> now"
  let ?s1 = "snd (return_fine now ?rd b s)"
  let ?h = "\<lambda>r. if ib_id r = ib_id b
                 then r\<lparr>ib_return_date := Some (dateonly ?rd), ib_status := returned,
                        ib_fine_amount := fst (return_fine now ?rd b s),
                        ib_notes := (case nts of None \<Rightarrow> ib_notes b
                                     | Some n \<Rightarrow> if n = [] then ib_notes b else Some n)\<rparr>
                 else r"
  from assms(2) b have "issued_books s' = map ?h (issued_books ?s1)"
    by (auto simp: returnBook_def Let_def split_beta split: if_splits)
  then have rows: "issued_books s' = map ?h (issued_books s)"
    by (simp add: return_fine_loans)
  show ?thesis
    by (rule one_issued_demote[OF assms(1) rows]) (auto split: if_splits)
qed

lemma find_NoneD: "find P xs = None \<Longrightarrow> \<forall>x \<in> set xs. \<not> P x"
  by (induction xs) (auto split: if_splits)

text \<open>
  C8, amended. When the student already has a loan in status issued for the book, issue
  fails and creates no loan; the error is DuplicateLoan when the student and the book
  are found active and the book has a copy available (the checks made before). So
  issue, like the sweep and the return, keeps at most one loan in status issued for
  each student and book.
\<close>

theorem issue_rejects_issued_duplicate:
  "(IssuedBook_findOne_issued sid bid s \<noteq> None \<longrightarrow>
      (\<exists>e. issueBook now lib sid bid due nts s = Inl e) \<and>
      ((\<exists>st bk. find (\<lambda>r. st_id r = sid \<and> st_is_active r) (students s) = Some st \<and>
                 find (\<lambda>r. b_id r = bid \<and> b_is_active r) (books s) = Some bk \<and>
                 0 < b_available_copies bk) \<longrightarrow>
       issueBook now lib sid bid due nts s = Inl DuplicateLoan)) \<and>
   (\<forall>l s'. one_issued_per_pair s \<and> issueBook now lib sid bid due nts s = Inr (l, s') \<longrightarrow>
            one_issued_per_pair s') \<and>
   (one_issued_per_pair s \<longrightarrow>
      one_issued_per_pair (snd (generateFinesForOverdueBooks rejects now s))) \<and>
   (\<forall>a s'. one_issued_per_pair s \<and> returnBook now k return_date notes s = Inr (a, s') \<longrightarrow>
            one_issued_per_pair s')"
proof (intro conjI impI allI)
  assume dup: "IssuedBook_findOne_issued sid bid s \<noteq> None"
  then show "\<exists>e. issueBook now lib sid bid due nts s = Inl e"
    by (simp add: issueBook_def split: option.splits)
  assume "\<exists>st bk. find (\<lambda>r. st_id r = sid \<and> st_is_active r) (students s) = Some st \<and>
                 find (\<lambda>r. b_id r = bid \<and> b_is_active r) (books s) = Some bk \<and>
                 0 < b_available_copies bk"
  with dup show "issueBook now lib sid bid due nts s = Inl DuplicateLoan"
    by (auto simp: issueBook_def)
next
  fix l s' assume a: "one_issued_per_pair s \<and> issueBook now lib sid bid due nts s = Inr (l, s')"
  then have none: "IssuedBook_findOne_issued sid bid s = None"
    by (auto simp: issueBook_def Let_def split: option.splits if_splits)
  from a have rows: "issued_books s' = issued_books s @ [l]"
    and l: "ib_student_id l = sid" "ib_book_id l = bid" "ib_status l = issued"
    by (auto simp: issueBook_def Let_def split: option.splits if_splits)
  from none have "\<forall>r \<in> set (issued_books s).
      \<not> (ib_student_id r = sid \<and> ib_book_id r = bid \<and> ib_status r = issued)"
    unfolding IssuedBook_findOne_issued_def by (rule find_NoneD)
  then have fresh: "(sid, bid) \<notin> (\<lambda>r. (ib_student_id r, ib_book_id r)) `
                       set (filter (\<lambda>r. ib_status r = issued) (issued_books s))"
    by auto
  from a have "one_issued_per_pair s" by simp
  with fresh rows l show "one_issued_per_pair s'"
    by (simp add: one_issued_per_pair_def)
next
  assume "one_issued_per_pair s"
  then show "one_issued_per_pair (snd (generateFinesForOverdueBooks rejects now s))"
    unfolding generateFinesForOverdueBooks_def by (rule sweep_loop_one_issued)
next
  fix a s' assume "one_issued_per_pair s \<and> returnBook now k return_date notes s = Inr (a, s')"
  then show "one_issued_per_pair s'" using returnBook_one_issued by blast
qed

theorem issue_rejects_issued_duplicate_witness:
  "IssuedBook_findOne_issued 42 7 ex_db_two \<noteq> None \<and>
   find (\<lambda>r. st_id r = 42 \<and> st_is_active r) (students ex_db_two) = Some ex_student \<and>
   find (\<lambda>r. b_id r = 7 \<and> b_is_active r) (books ex_db_two) = Some ex_book \<and>
   0 < b_available_copies ex_book \<and>
   issueBook 1705276800000 1 42 7 19760 None ex_db_two = Inl DuplicateLoan \<and>
   one_issued_per_pair ex_db_two \<and>
   (\<exists>l s'. issueBook 1705276800000 1 42 8 19760 None ex_db_two = Inr (l, s') \<and>
            one_issued_per_pair s')"
proof -
  have a: "IssuedBook_findOne_issued 42 7 ex_db_two \<noteq> None" by code_simp
  have b: "find (\<lambda>r. st_id r = 42 \<and> st_is_active r) (students ex_db_two) = Some ex_student"
    by code_simp
  have c: "find (\<lambda>r. b_id r = 7 \<and> b_is_active r) (books ex_db_two) = Some ex_book"
    by code_simp
  have d: "0 < b_available_copies ex_book" by code_simp
  have e: "one_issued_per_pair ex_db_two" by code_simp
  have "\<not> isl (issueBook 1705276800000 1 42 8 19760 None ex_db_two)" by code_simp
  then obtain y where "issueBook 1705276800000 1 42 8 19760 None ex_db_two = Inr y"
    by (cases "issueBook 1705276800000 1 42 8 19760 None ex_db_two") auto
  then have f: "\<exists>l s'. issueBook 1705276800000 1 42 8 19760 None ex_db_two = Inr (l, s')"
    by (cases y) auto
  from issue_rejects_issued_duplicate[where sid = 42 and bid = 7 and s = ex_db_two
      and now = 1705276800000 and lib = 1 and due = 19760 and nts = None] a b c d
  have g: "issueBook 1705276800000 1 42 7 19760 None ex_db_two = Inl DuplicateLoan" by blast
  from issue_rejects_issued_duplicate[where sid = 42 and bid = 8 and s = ex_db_two
      and now = 1705276800000 and lib = 1 and due = 19760 and nts = None] e f
  have h: "\<exists>l s'. issueBook 1705276800000 1 42 8 19760 None ex_db_two = Inr (l, s') \<and>
            one_issued_per_pair s'" by blast
  from a b c d e g h show ?thesis by blast
qed

text \<open>
  C8 as stated fails: with no copy of the book left, the issue to a student who holds an
  issued loan of it fails as Unavailable, not as DuplicateLoan; and the issue to a student
  whose loan of the book is overdue succeeds, which gives the student two loans of the
  book that are not returned.
\<close>

theorem issue_duplicate_other_error_and_overdue:
  "IssuedBook_findOne_issued 42 7 ex_db_no_copies \<noteq> None \<and>
   issueBook 1705276800000 1 42 7 19760 None ex_db_no_copies = Inl Unavailable \<and>
   map (\<lambda>r. (ib_student_id r, ib_book_id r, ib_status r)) (issued_books ex_db_overdue)
     = [(42, 7, overdue)] \<and>
   (case issueBook 1705276800000 1 42 7 19760 None ex_db_overdue of
      Inl e \<Rightarrow> False
    | Inr (l, s') \<Rightarrow>
        map (\<lambda>r. (ib_student_id r, ib_book_id r, ib_status r)) (issued_books s')
          = [(42, 7, overdue), (42, 7, issued)])"
  by code_simp

end
